theory Spec2Isabelle
  imports Complex_Main "HOL-Library.Char_ord" "HOL-Library.List_Lexorder" "HOL-Library.Option_ord"
    "HOL-Library.Multiset" "HOL-Library.Log_Nat"
begin

section \<open>The persisted row and the storage service\<close>

text \<open>
  One row of the table \<open>term_spread_history\<close>, with the fields of the object \<open>record\<close>
  built in \<open>api/snapshot.js\<close>. Dates are ISO day strings (\<open>YYYY-MM-DD\<close>), compared as
  strings. A JavaScript number is an IEEE double, held as the rational it stands for.
\<close>

record snapshot_row =
  date :: string
  term_spread :: rat
  front_month_apy :: rat
  back_month_apy :: rat
  front_expiry :: string
  back_expiry :: string
  underlying_apy :: rat
  markets_count :: nat

text \<open>
  What \<open>await fetch(...)\<close> against the storage service can give back: the promise rejects
  (network failure), the response is not \<open>ok\<close> (its body is the diagnostic text), or the
  response carries rows.
\<close>

datatype supabase_reply = Network_error string | Not_ok string | Rows "snapshot_row list"

text \<open>
  Modelled from the spec: the storage service answering the query
  \<open>select=*&order=date.desc&limit=n\<close>, which is not part of the repository. Over a table
  held as a list of rows it returns the newest dates first, at most \<open>n\<close> rows. On a
  negative limit the specification is silent; it is taken to be rejected.
\<close>

definition select_desc :: "snapshot_row list \<Rightarrow> int \<Rightarrow> supabase_reply" where
  "select_desc tbl n =
     (if n < 0 then Not_ok ''LIMIT must not be negative''
      else Rows (take (nat n) (rev (sort_key date tbl))))"

section \<open>The history endpoint (\<open>handler\<close> of the history file)\<close>

text \<open>
  The request: its HTTP method and \<open>parseInt(req.query.days)\<close>, where \<open>None\<close> stands for
  \<open>NaN\<close> (parameter absent or not starting with a number).
\<close>

record history_request =
  req_method :: string
  query_days :: "int option"

datatype history_response =
    Options_end
  | History_ok nat "snapshot_row list"
  | History_error string

text \<open>\<open>parseInt(req.query.days) || 90\<close>: \<open>NaN\<close> and \<open>0\<close> are falsy.\<close>

definition days_of :: "history_request \<Rightarrow> int" where
  "days_of req = (case query_days req of None \<Rightarrow> 90 | Some n \<Rightarrow> if n = 0 then 90 else n)"

text \<open>\<open>Math.min(days, 365)\<close>\<close>

definition limitedDays :: "history_request \<Rightarrow> int" where
  "limitedDays req = min (days_of req) 365"

definition history_handler :: "(int \<Rightarrow> supabase_reply) \<Rightarrow> history_request \<Rightarrow> history_response" where
  "history_handler supabase_get req =
     (if req_method req = ''OPTIONS'' then Options_end
      else case supabase_get (limitedDays req) of
             Network_error msg \<Rightarrow> History_error msg
           | Not_ok error \<Rightarrow> History_error (''Supabase error: '' @ error)
           | Rows data \<Rightarrow>
               (let chronological = rev data
                in History_ok (length chronological) chronological))"

text \<open>The call \<open>get(n)\<close> of the specification: a \<open>GET\<close> request with \<open>days=n\<close>.\<close>

definition get_days :: "int \<Rightarrow> history_request" where
  "get_days n = \<lparr>req_method = ''GET'', query_days = Some n\<rparr>"

section \<open>JavaScript values and operators used by the code\<close>

text \<open>
  An optional JSON field is an \<open>option\<close>: \<open>None\<close> is \<open>undefined\<close> (or \<open>null\<close>). A numeric
  field is falsy when it is absent or zero, a string field when it is absent or empty.
  \<open>a || b\<close> yields \<open>a\<close> when \<open>a\<close> is truthy and \<open>b\<close> otherwise.
\<close>

definition truthy_num :: "rat option \<Rightarrow> bool" where
  "truthy_num a = (case a of None \<Rightarrow> False | Some v \<Rightarrow> v \<noteq> 0)"

definition or_num :: "rat option \<Rightarrow> rat option \<Rightarrow> rat option" where
  "or_num a b = (if truthy_num a then a else b)"

text \<open>\<open>x || 0\<close> for a numeric \<open>x\<close>\<close>

definition or_0 :: "rat option \<Rightarrow> rat" where
  "or_0 a = (case a of None \<Rightarrow> 0 | Some v \<Rightarrow> v)"

definition truthy_str :: "string option \<Rightarrow> bool" where
  "truthy_str a = (case a of None \<Rightarrow> False | Some s \<Rightarrow> s \<noteq> [])"

definition or_str :: "string option \<Rightarrow> string option \<Rightarrow> string option" where
  "or_str a b = (if truthy_str a then a else b)"

text \<open>\<open>x || ''\<close> for a string \<open>x\<close>\<close>

definition or_empty :: "string option \<Rightarrow> string" where
  "or_empty a = (case a of None \<Rightarrow> [] | Some s \<Rightarrow> s)"

text \<open>
  \<open>String.prototype.toLowerCase\<close> on the letters \<open>A\<close> to \<open>Z\<close>. No character outside ASCII
  lower-cases to one of the letters of \<open>susde\<close>, \<open>usde\<close> or \<open>ethena\<close>, so the other
  characters are left as they are.
\<close>

definition lower_char :: "char \<Rightarrow> char" where
  "lower_char c =
     (if (65::nat) \<le> of_char c \<and> of_char c \<le> (90::nat) then char_of (of_char c + (32::nat)) else c)"

definition toLowerCase :: "string \<Rightarrow> string" where
  "toLowerCase s = map lower_char s"

text \<open>\<open>s.includes(t)\<close>: \<open>t\<close> occurs in \<open>s\<close> at some position.\<close>

fun str_includes :: "string \<Rightarrow> string \<Rightarrow> bool" where
  "str_includes [] t = (t = [])"
| "str_includes (c # s) t = (take (length t) (c # s) = t \<or> str_includes s t)"

text \<open>\<open>s.split('T')[0]\<close>: the part of \<open>s\<close> before the first \<open>T\<close>.\<close>

definition split_T_0 :: "string \<Rightarrow> string" where
  "split_T_0 s = takeWhile (\<lambda>c. c \<noteq> CHR ''T'') s"

text \<open>
  IEEE 754 binary64 arithmetic on the finite doubles. \<open>double_of x\<close> is the double nearest
  to \<open>x\<close>, the one with the even significand on a tie: \<open>ilog2 x\<close> is the binary exponent
  of \<open>x\<close>, \<open>ulp_exp x\<close> the exponent of the last place of a 53-bit significand there (no
  lower than that of the subnormals). Reading a JSON number, \<open>*\<close> and \<open>-\<close> each round
  their exact result this way. Overflow to \<open>Infinity\<close> (a magnitude of \<open>2^1024\<close> or more)
  is not modelled.
\<close>

definition pow2 :: "int \<Rightarrow> rat" where
  "pow2 k = (if 0 \<le> k then 2 ^ nat k else 1 / 2 ^ nat (- k))"

definition ilog2 :: "rat \<Rightarrow> int" where
  "ilog2 x =
     (let e = bitlen (fst (quotient_of \<bar>x\<bar>)) - bitlen (snd (quotient_of \<bar>x\<bar>))
      in if pow2 e \<le> \<bar>x\<bar> then e else e - 1)"

definition round_even :: "rat \<Rightarrow> int" where
  "round_even y =
     (if y - of_int \<lfloor>y\<rfloor> < 1 / 2 then \<lfloor>y\<rfloor>
      else if 1 / 2 < y - of_int \<lfloor>y\<rfloor> then \<lfloor>y\<rfloor> + 1
      else if even \<lfloor>y\<rfloor> then \<lfloor>y\<rfloor> else \<lfloor>y\<rfloor> + 1)"

definition ulp_exp :: "rat \<Rightarrow> int" where
  "ulp_exp x = max (ilog2 x - 52) (- 1074)"

definition double_of :: "rat \<Rightarrow> rat" where
  "double_of x =
     (if x = 0 then 0
      else of_int (round_even (x / pow2 (ulp_exp x))) * pow2 (ulp_exp x))"

text \<open>\<open>a * b\<close> and \<open>a - b\<close> on doubles\<close>

definition fmul :: "rat \<Rightarrow> rat \<Rightarrow> rat" where
  "fmul a b = double_of (a * b)"

definition fsub :: "rat \<Rightarrow> rat \<Rightarrow> rat" where
  "fsub a b = double_of (a - b)"

text \<open>
  \<open>parseFloat(x.toFixed(n))\<close>: \<open>toFixed\<close> takes the sign off, picks the integer \<open>k\<close> with
  \<open>k / 10^n\<close> nearest to the exact magnitude of the double, the larger \<open>k\<close> on a tie, and
  puts the sign back; \<open>parseFloat\<close> reads that decimal as a double.
\<close>

definition toFixed :: "nat \<Rightarrow> rat \<Rightarrow> rat" where
  "toFixed n x = double_of (sgn x * of_int \<lfloor>\<bar>x\<bar> * 10 ^ n + 1 / 2\<rfloor> / 10 ^ n)"

text \<open>
  \<open>Array.prototype.sort(comparefn)\<close>. \<open>cmp a b\<close> is the number \<open>comparefn(a, b)\<close> with
  \<open>NaN\<close> read as 0, as the language prescribes. When the comparator is a consistent
  ordering every engine returns the stable sort; otherwise the order is left to the
  engine. The model is the sort of V8 (Node, Chrome) for arrays of fewer than 64
  elements: \<open>CountAndMakeRun\<close> takes the longest initial run, non-descending or strictly
  descending (then reversed), and \<open>BinaryInsertionSort\<close> inserts each later element at
  the place a binary search finds. On longer arrays V8 also merges runs.
\<close>

fun run_rest :: "bool \<Rightarrow> ('a \<Rightarrow> 'a \<Rightarrow> int) \<Rightarrow> 'a \<Rightarrow> 'a list \<Rightarrow> nat" where
  "run_rest isDescending cmp previous [] = 0"
| "run_rest isDescending cmp previous (current # rest) =
     (if (if isDescending then 0 \<le> cmp current previous else cmp current previous < 0) then 0
      else Suc (run_rest isDescending cmp current rest))"

definition count_and_make_run :: "('a \<Rightarrow> 'a \<Rightarrow> int) \<Rightarrow> 'a list \<Rightarrow> 'a list \<times> nat" where
  "count_and_make_run cmp xs =
     (case xs of
        a # b # rest \<Rightarrow>
          (let isDescending = cmp b a < 0;
               runLength = 2 + run_rest isDescending cmp b rest
           in (if isDescending then rev (take runLength xs) @ drop runLength xs else xs,
               runLength))
      | _ \<Rightarrow> (xs, length xs))"

function binary_search :: "('a \<Rightarrow> 'a \<Rightarrow> int) \<Rightarrow> 'a \<Rightarrow> 'a list \<Rightarrow> nat \<Rightarrow> nat \<Rightarrow> nat" where
  "binary_search cmp pivot xs left right =
     (if left < right
      then (if cmp pivot (xs ! (left + (right - left) div 2)) < 0
            then binary_search cmp pivot xs left (left + (right - left) div 2)
            else binary_search cmp pivot xs (left + (right - left) div 2 + 1) right)
      else left)"
  by pat_completeness auto
termination
  by (relation "measure (\<lambda>(cmp, pivot, xs, left, right). right - left)") auto

declare binary_search.simps [simp del]

definition insert_step :: "('a \<Rightarrow> 'a \<Rightarrow> int) \<Rightarrow> 'a list \<Rightarrow> nat \<Rightarrow> 'a list" where
  "insert_step cmp xs start =
     (let pivot = xs ! start;
          left = binary_search cmp pivot xs 0 start
      in take left xs @ pivot # take (start - left) (drop left xs) @ drop (Suc start) xs)"

definition binary_insertion_sort :: "('a \<Rightarrow> 'a \<Rightarrow> int) \<Rightarrow> 'a list \<Rightarrow> nat \<Rightarrow> 'a list" where
  "binary_insertion_sort cmp xs start = foldl (insert_step cmp) xs [start..<length xs]"

definition array_sort :: "('a \<Rightarrow> 'a \<Rightarrow> int) \<Rightarrow> 'a list \<Rightarrow> 'a list" where
  "array_sort cmp xs =
     (if length xs < 2 then xs
      else binary_insertion_sort cmp (fst (count_and_make_run cmp xs))
             (snd (count_and_make_run cmp xs)))"

text \<open>
  The state of the insertion sort once the first \<open>n\<close> elements are in place: they are the
  stable sort of the first \<open>n\<close> elements of the input, and the rest is untouched.
\<close>

definition sorted_upto :: "('a \<Rightarrow> 'k::linorder) \<Rightarrow> 'a list \<Rightarrow> nat \<Rightarrow> 'a list \<Rightarrow> bool" where
  "sorted_upto f xs n ys \<longleftrightarrow>
     take n ys = sort_key f (take n xs) \<and> drop n ys = drop n xs \<and> length ys = length xs"

text \<open>
  The \<open>Date\<close> built-ins and the clock. \<open>parseDate s\<close> is the time value of \<open>new Date(s)\<close> in
  milliseconds, \<open>None\<close> for an invalid date (\<open>NaN\<close>); \<open>now\<close> is the time value of
  \<open>new Date()\<close>, one reading for the whole invocation; \<open>toISOString\<close> renders a time value.
\<close>

record js_date =
  parseDate :: "string \<Rightarrow> int option"
  toISOString :: "int \<Rightarrow> string"
  now :: int

section \<open>Market records of the upstream feed\<close>

record details =
  d_impliedApy :: "rat option"
  d_underlyingApy :: "rat option"
  d_aggregatedApy :: "rat option"
  d_liquidity :: "rat option"

text \<open>\<open>underlyingAsset_symbol\<close> is \<open>underlyingAsset?.symbol\<close>, \<open>liquidity_usd\<close> is \<open>liquidity?.usd\<close>.\<close>

record market =
  address :: string
  name :: "string option"
  proName :: "string option"
  underlyingAsset_symbol :: "string option"
  expiry :: "string option"
  impliedApy :: "rat option"
  underlyingApy :: "rat option"
  liquidity_usd :: "rat option"
  details :: "details option"

text \<open>\<open>market.details?.field\<close>\<close>

definition details_field :: "(details \<Rightarrow> rat option) \<Rightarrow> 'a market_scheme \<Rightarrow> rat option" where
  "details_field f m = (case details m of None \<Rightarrow> None | Some d \<Rightarrow> f d)"

text \<open>\<open>.filter(m => m.expiry)\<close>\<close>

definition has_expiry :: "'a market_scheme \<Rightarrow> bool" where
  "has_expiry m = truthy_str (expiry m)"

text \<open>The time value of \<open>new Date(m.expiry)\<close>.\<close>

definition expiry_time :: "js_date \<Rightarrow> 'a market_scheme \<Rightarrow> int option" where
  "expiry_time env m = (case expiry m of None \<Rightarrow> None | Some e \<Rightarrow> parseDate env e)"

text \<open>
  \<open>Math.ceil((new Date(m.expiry) - new Date()) / (1000 * 60 * 60 * 24))\<close>, \<open>None\<close> for
  \<open>NaN\<close>. The ceiling of \<open>d / k\<close> is \<open>- ((- d) div k)\<close>.
\<close>

definition days_to_expiry :: "js_date \<Rightarrow> 'a market_scheme \<Rightarrow> int option" where
  "days_to_expiry env m =
     map_option (\<lambda>t. - ((now env - t) div (1000 * 60 * 60 * 24))) (expiry_time env m)"

text \<open>\<open>days > 0\<close>, false for \<open>NaN\<close>\<close>

definition days_positive :: "int option \<Rightarrow> bool" where
  "days_positive d = (case d of None \<Rightarrow> False | Some n \<Rightarrow> 0 < n)"

text \<open>
  The comparator \<open>(a, b) => new Date(a.expiry) - new Date(b.expiry)\<close>: the difference of
  the time values, \<open>NaN\<close> (read as 0) when either date is invalid. Only its sign is used.
\<close>

definition expiry_cmp :: "js_date \<Rightarrow> 'a market_scheme \<Rightarrow> 'a market_scheme \<Rightarrow> int" where
  "expiry_cmp env a b =
     (case expiry_time env a of
        None \<Rightarrow> 0
      | Some ta \<Rightarrow> (case expiry_time env b of None \<Rightarrow> 0 | Some tb \<Rightarrow> ta - tb))"

text \<open>\<open>.filter(m => m.expiry).sort((a, b) => new Date(a.expiry) - new Date(b.expiry))\<close>\<close>

definition sort_by_expiry :: "js_date \<Rightarrow> 'a market_scheme list \<Rightarrow> 'a market_scheme list" where
  "sort_by_expiry env ms = array_sort (expiry_cmp env) (filter has_expiry ms)"

section \<open>The daily snapshot job (\<open>handler\<close> of \<open>api/snapshot.js\<close>)\<close>

definition CHAINS :: "(nat \<times> string) list" where
  "CHAINS = [(1, ''Ethereum''), (9745, ''Plasma'')]"

text \<open>
  What one branch of the fan-out meets. \<open>Fetch_failed e\<close>: \<open>fetch\<close> or \<open>r.json()\<close> rejects,
  or reading \<open>data.markets\<close> throws; the \<open>.catch\<close> of the branch takes it.
  \<open>Fetch_json None\<close>: a body without a \<open>markets\<close> list (an error body, say).
  \<open>Fetch_json (Some ms)\<close>: a body whose \<open>markets\<close> is the list \<open>ms\<close>.
\<close>

datatype fetch_outcome = Fetch_failed string | Fetch_json "market list option"

record chain_response =
  r_chain :: string
  r_chainId :: nat
  r_markets :: "market list"
  r_error :: "string option"

record tagged_market = market +
  chain :: string
  chainId :: nat

definition fetch_chain :: "(nat \<Rightarrow> fetch_outcome) \<Rightarrow> nat \<times> string \<Rightarrow> chain_response" where
  "fetch_chain net c =
     (case net (fst c) of
        Fetch_json data_markets \<Rightarrow>
          \<lparr>r_chain = snd c, r_chainId = fst c,
           r_markets = (case data_markets of None \<Rightarrow> [] | Some ms \<Rightarrow> ms), r_error = None\<rparr>
      | Fetch_failed e \<Rightarrow>
          \<lparr>r_chain = snd c, r_chainId = fst c, r_markets = [], r_error = Some e\<rparr>)"

definition responses :: "(nat \<Rightarrow> fetch_outcome) \<Rightarrow> chain_response list" where
  "responses net = map (fetch_chain net) CHAINS"

text \<open>\<open>{ ...m, chain: r.chain, chainId: r.chainId }\<close>\<close>

definition tag_market :: "chain_response \<Rightarrow> market \<Rightarrow> tagged_market" where
  "tag_market r m = market.extend m \<lparr>chain = r_chain r, chainId = r_chainId r\<rparr>"

definition allMarkets :: "chain_response list \<Rightarrow> tagged_market list" where
  "allMarkets rs = concat (map (\<lambda>r. map (tag_market r) (r_markets r)) rs)"

text \<open>\<open>(market.name || '').toLowerCase() === 'susde'\<close>\<close>

definition is_susde :: "'a market_scheme \<Rightarrow> bool" where
  "is_susde m = (toLowerCase (or_empty (name m)) = ''susde'')"

definition susdeMarkets :: "tagged_market list \<Rightarrow> tagged_market list" where
  "susdeMarkets ms = filter is_susde ms"

text \<open>The constant \<open>sorted\<close> of the handler: sorted by expiry, then only \<open>days > 0\<close>.\<close>

definition sorted_markets :: "js_date \<Rightarrow> tagged_market list \<Rightarrow> tagged_market list" where
  "sorted_markets env ms =
     filter (\<lambda>m. days_positive (days_to_expiry env m)) (sort_by_expiry env ms)"

definition frontMonth :: "tagged_market list \<Rightarrow> tagged_market" where
  "frontMonth sorted_ms = sorted_ms ! 0"

definition backMonth :: "tagged_market list \<Rightarrow> tagged_market" where
  "backMonth sorted_ms = sorted_ms ! (length sorted_ms - 1)"

text \<open>\<open>(m.details?.impliedApy || m.impliedApy || 0) * 100\<close>\<close>

definition impliedApy_pct :: "'a market_scheme \<Rightarrow> rat" where
  "impliedApy_pct m = fmul (or_0 (or_num (details_field d_impliedApy m) (impliedApy m))) 100"

text \<open>\<open>(m.details?.underlyingApy || m.underlyingApy || 0) * 100\<close>\<close>

definition underlyingApy_pct :: "'a market_scheme \<Rightarrow> rat" where
  "underlyingApy_pct m =
     fmul (or_0 (or_num (details_field d_underlyingApy m) (underlyingApy m))) 100"

definition frontApy :: "tagged_market list \<Rightarrow> rat" where
  "frontApy sorted_ms = impliedApy_pct (frontMonth sorted_ms)"

definition backApy :: "tagged_market list \<Rightarrow> rat" where
  "backApy sorted_ms = impliedApy_pct (backMonth sorted_ms)"

definition termSpread :: "tagged_market list \<Rightarrow> rat" where
  "termSpread sorted_ms = fsub (backApy sorted_ms) (frontApy sorted_ms)"

text \<open>\<open>new Date().toISOString().split('T')[0]\<close>\<close>

definition today :: "js_date \<Rightarrow> string" where
  "today env = split_T_0 (toISOString env (now env))"

text \<open>The object \<open>record\<close>. Every member of \<open>sorted\<close> has a truthy \<open>expiry\<close>.\<close>

definition snapshot_record :: "js_date \<Rightarrow> tagged_market list \<Rightarrow> snapshot_row" where
  "snapshot_record env sorted_ms =
     \<lparr>date = today env,
      term_spread = toFixed 4 (termSpread sorted_ms),
      front_month_apy = toFixed 4 (frontApy sorted_ms),
      back_month_apy = toFixed 4 (backApy sorted_ms),
      front_expiry = split_T_0 (or_empty (expiry (frontMonth sorted_ms))),
      back_expiry = split_T_0 (or_empty (expiry (backMonth sorted_ms))),
      underlying_apy = toFixed 4 (underlyingApy_pct (frontMonth sorted_ms)),
      markets_count = length sorted_ms\<rparr>"

text \<open>
  The upsert request (\<open>POST\<close> with \<open>Prefer: resolution=merge-duplicates\<close>) against a storage
  service in state \<open>'st\<close>: the request is rejected on the network, answered not \<open>ok\<close> with
  a diagnostic text, or answered \<open>ok\<close>. The service is a parameter of the handler and
  returns its next state with the reply.
\<close>

datatype post_reply = Post_failed string | Post_not_ok string | Post_ok

text \<open>
  The three answers of the job: status 200 with a message and a count, status 200 with
  \<open>success\<close>, \<open>date\<close>, \<open>term_spread\<close>, \<open>front_apy\<close>, \<open>back_apy\<close>, \<open>markets\<close>, and status 500.
\<close>

datatype snapshot_response =
    Not_enough string nat
  | Snapshot_saved string rat rat rat nat
  | Snapshot_error string

definition handler ::
  "js_date \<Rightarrow> (nat \<Rightarrow> fetch_outcome) \<Rightarrow> (snapshot_row \<Rightarrow> 'st \<Rightarrow> post_reply \<times> 'st) \<Rightarrow> 'st
     \<Rightarrow> snapshot_response \<times> 'st" where
  "handler env net supabase_post st =
     (let candidates = susdeMarkets (allMarkets (responses net))
      in if length candidates < 2
         then (Not_enough ''Not enough sUSDe markets to calculate spread'' (length candidates), st)
         else
           let sorted_ms = sorted_markets env candidates
           in if length sorted_ms < 2
              then (Not_enough ''Not enough valid sUSDe markets'' (length sorted_ms), st)
              else
                let record = snapshot_record env sorted_ms
                in case supabase_post record st of
                     (Post_failed msg, st') \<Rightarrow> (Snapshot_error msg, st')
                   | (Post_not_ok error, st') \<Rightarrow>
                       (Snapshot_error (''Supabase error: '' @ error), st')
                   | (Post_ok, st') \<Rightarrow>
                       (Snapshot_saved (date record) (term_spread record)
                          (front_month_apy record) (back_month_apy record) (length sorted_ms), st'))"

text \<open>A failed branch read as a branch that returned no markets.\<close>

definition failed_as_empty :: "(nat \<Rightarrow> fetch_outcome) \<Rightarrow> nat \<Rightarrow> fetch_outcome" where
  "failed_as_empty net c =
     (case net c of Fetch_failed e \<Rightarrow> Fetch_json (Some []) | Fetch_json d \<Rightarrow> Fetch_json d)"

text \<open>
  Modelled from the spec: the storage service behind \<open>put\<close>, which is not part of the
  repository. A table is a list of rows; a write for a date replaces the row of that date
  as a whole and never adds a second one.
\<close>

definition store_put :: "snapshot_row \<Rightarrow> snapshot_row list \<Rightarrow> snapshot_row list" where
  "store_put snapshot tbl = filter (\<lambda>r. date r \<noteq> date snapshot) tbl @ [snapshot]"

text \<open>The storage service that always accepts the upsert.\<close>

definition upsert_ok :: "snapshot_row \<Rightarrow> snapshot_row list \<Rightarrow> post_reply \<times> snapshot_row list" where
  "upsert_ok snapshot tbl = (Post_ok, store_put snapshot tbl)"

text \<open>The row of a date, as a read by date would return it.\<close>

definition rows_of_date :: "string \<Rightarrow> snapshot_row list \<Rightarrow> snapshot_row list" where
  "rows_of_date d tbl = filter (\<lambda>r. date r = d) tbl"

section \<open>The dashboard (\<open>src/App.js\<close>)\<close>

text \<open>
  The filter of \<open>fetchPendleMarkets\<close>:
  \<open>name = (market.name || market.proName || '').toLowerCase()\<close>,
  \<open>symbol = (market.underlyingAsset?.symbol || '').toLowerCase()\<close>,
  \<open>name.includes('susde') || symbol.includes('susde')\<close>.
\<close>

definition display_name :: "'a market_scheme \<Rightarrow> string" where
  "display_name m = or_empty (or_str (name m) (proName m))"

definition app_is_susde :: "'a market_scheme \<Rightarrow> bool" where
  "app_is_susde m =
     (str_includes (toLowerCase (display_name m)) ''susde''
      \<or> str_includes (toLowerCase (or_empty (underlyingAsset_symbol m))) ''susde'')"

text \<open>The fallback filter, used when no market passes the first one.\<close>

definition is_ethena :: "'a market_scheme \<Rightarrow> bool" where
  "is_ethena m =
     (str_includes (toLowerCase (or_empty (name m))) ''usde''
      \<or> str_includes (toLowerCase (or_empty (name m))) ''ethena'')"

text \<open>The list handed to \<open>processMarkets\<close>, \<open>None\<close> when it is not called.\<close>

definition app_candidates :: "market list \<Rightarrow> market list option" where
  "app_candidates ms =
     (let susde = filter app_is_susde ms
      in if length susde = 0
         then (let ethenaMarkets = filter is_ethena ms
               in if 0 < length ethenaMarkets then Some ethenaMarkets else None)
         else Some susde)"

text \<open>\<open>market.details?.impliedApy || market.impliedApy || 0\<close>\<close>

definition resolve_impliedApy :: "'a market_scheme \<Rightarrow> rat" where
  "resolve_impliedApy m = or_0 (or_num (details_field d_impliedApy m) (impliedApy m))"

text \<open>
  \<open>market.details?.underlyingApy || market.underlyingApy || market.details?.aggregatedApy || 0\<close>
\<close>

definition resolve_underlyingApy :: "'a market_scheme \<Rightarrow> rat" where
  "resolve_underlyingApy m =
     or_0 (or_num (or_num (details_field d_underlyingApy m) (underlyingApy m))
             (details_field d_aggregatedApy m))"

text \<open>\<open>market.details?.liquidity || market.liquidity?.usd || 0\<close>\<close>

definition resolve_tvl :: "'a market_scheme \<Rightarrow> rat" where
  "resolve_tvl m = or_0 (or_num (details_field d_liquidity m) (liquidity_usd m))"

text \<open>
  One element of \<open>structure\<close>. The display strings \<open>maturity\<close> and \<open>expiry\<close> (locale
  formatting) are left out.
\<close>

record point =
  days :: "int option"
  impliedYield :: rat
  underlyingYield :: rat
  tvl :: rat
  p_address :: string
  p_name :: "string option"

definition structure_point :: "js_date \<Rightarrow> market \<Rightarrow> point" where
  "structure_point env m =
     \<lparr>days = days_to_expiry env m,
      impliedYield = fmul (resolve_impliedApy m) 100,
      underlyingYield = fmul (resolve_underlyingApy m) 100,
      tvl = resolve_tvl m,
      p_address = address m,
      p_name = or_str (name m) (proName m)\<rparr>"

text \<open>
  The React state that \<open>processMarkets\<close> writes. The simulated history (random) is left
  out.
\<close>

record app_state =
  st_termStructure :: "point list"
  st_termSpread :: rat
  st_underlyingYield :: rat
  st_error :: "string option"

definition initial_state :: app_state where
  "initial_state =
     \<lparr>st_termStructure = [], st_termSpread = 0, st_underlyingYield = 0, st_error = None\<rparr>"

definition validStructure :: "js_date \<Rightarrow> market list \<Rightarrow> point list" where
  "validStructure env markets =
     filter (\<lambda>s. days_positive (days s) \<and> 0 < impliedYield s)
       (map (structure_point env) (sort_by_expiry env markets))"

definition processMarkets :: "js_date \<Rightarrow> market list \<Rightarrow> app_state \<Rightarrow> app_state" where
  "processMarkets env markets st =
     (if length (sort_by_expiry env markets) = 0 then st
      else
        let valid = validStructure env markets
        in if length valid = 0
           then st\<lparr>st_error := Some ''No valid markets with positive days to expiry''\<rparr>
           else
             let st1 = st\<lparr>st_termStructure := valid\<rparr>;
                 st2 =
                   (if 2 \<le> length valid
                    then st1\<lparr>st_termSpread :=
                           toFixed 2 (fsub (impliedYield (valid ! (length valid - 1)))
                                        (impliedYield (valid ! 0)))\<rparr>
                    else if length valid = 1 then st1\<lparr>st_termSpread := 0\<rparr>
                    else st1)
             in if underlyingYield (valid ! 0) \<noteq> 0
                then st2\<lparr>st_underlyingYield := toFixed 2 (underlyingYield (valid ! 0))\<rparr>
                else st2)"

section \<open>The precedence of the specification\<close>

text \<open>
  The rule as the specification words it, by presence of the field: the nested field if
  it is present, else the top-level field if it is present, else the alias if it is
  present, else 0.
\<close>

definition precedence_by_presence :: "rat option \<Rightarrow> rat option \<Rightarrow> rat option \<Rightarrow> rat" where
  "precedence_by_presence nested toplevel alias =
     (case nested of Some v \<Rightarrow> v
      | None \<Rightarrow> (case toplevel of Some v \<Rightarrow> v
                 | None \<Rightarrow> (case alias of Some v \<Rightarrow> v | None \<Rightarrow> 0)))"

text \<open>A source whose value is 0 counts as absent.\<close>

definition nonzero :: "rat option \<Rightarrow> rat option" where
  "nonzero a = (case a of None \<Rightarrow> None | Some v \<Rightarrow> if v = 0 then None else Some v)"

section \<open>Example inputs\<close>

text \<open>A stored row.\<close>

definition example_row :: snapshot_row where
  "example_row = \<lparr>date = ''2026-01-01'', term_spread = -3, front_month_apy = 4,
     back_month_apy = 1, front_expiry = ''2026-01-11'', back_expiry = ''2026-06-30'',
     underlying_apy = 5, markets_count = 2\<rparr>"

text \<open>A table of three days, not stored in order.\<close>

definition example_table :: "snapshot_row list" where
  "example_table = [example_row\<lparr>date := ''2026-01-02''\<rparr>, example_row,
                    example_row\<lparr>date := ''2026-01-03''\<rparr>]"



text \<open>
  The clock reads 2026-01-01T12:00:00Z. The three expiries are 10 days ahead, 180 days
  ahead and 5 days back.
\<close>

definition example_parse :: "string \<Rightarrow> int option" where
  "example_parse s =
     (if s = ''2026-01-11T12:00:00.000Z'' then Some 1768132800000
      else if s = ''2026-06-30T12:00:00.000Z'' then Some 1782820800000
      else if s = ''2025-12-27T12:00:00.000Z'' then Some 1766836800000
      else None)"

definition example_env :: js_date where
  "example_env =
     \<lparr>parseDate = example_parse,
      toISOString = (\<lambda>t. if t = 1767268800000 then ''2026-01-01T12:00:00.000Z'' else []),
      now = 1767268800000\<rparr>"

definition example_market :: "string \<Rightarrow> string \<Rightarrow> rat \<Rightarrow> market" where
  "example_market nm e apy =
     \<lparr>address = ''0xabc'', name = Some nm, proName = None, underlyingAsset_symbol = None,
      expiry = Some e, impliedApy = Some (double_of apy), underlyingApy = None, liquidity_usd = None,
      details = None\<rparr>"

definition market_10d :: market where
  "market_10d = example_market ''sUSDe'' ''2026-01-11T12:00:00.000Z'' (4 / 100)"

definition market_180d :: market where
  "market_180d = example_market ''sUSDe'' ''2026-06-30T12:00:00.000Z'' (1 / 100)"

definition market_expired :: market where
  "market_expired = example_market ''sUSDe'' ''2025-12-27T12:00:00.000Z'' (9 / 100)"

text \<open>The first chain returns the two markets of the scenario, the second none.\<close>

definition example_net :: "nat \<Rightarrow> fetch_outcome" where
  "example_net c = (if c = 1 then Fetch_json (Some [market_10d, market_180d])
                    else Fetch_json (Some []))"

text \<open>The first chain fails, the second returns three valid markets.\<close>

definition failing_net :: "nat \<Rightarrow> fetch_outcome" where
  "failing_net c = (if c = 1 then Fetch_failed ''network error''
                    else Fetch_json (Some [market_180d, market_10d, market_180d]))"

text \<open>
  A market whose nested yields are present and 0, with a top-level implied yield of 0.05
  and an aggregated yield of 0.03.
\<close>

definition market_zero_nested :: market where
  "market_zero_nested =
     \<lparr>address = ''0xdef'', name = Some ''sUSDe'', proName = None,
      underlyingAsset_symbol = None, expiry = Some ''2026-01-11T12:00:00.000Z'',
      impliedApy = Some (double_of (5 / 100)), underlyingApy = Some 0, liquidity_usd = None,
      details = Some \<lparr>d_impliedApy = Some 0, d_underlyingApy = Some 0,
                       d_aggregatedApy = Some (double_of (3 / 100)), d_liquidity = None\<rparr>\<rparr>"

text \<open>A market with a longer name, and one matched by its asset symbol only.\<close>

definition market_longer_name :: market where
  "market_longer_name = example_market ''sUSDe Something'' ''2026-01-11T12:00:00.000Z'' (4 / 100)"

definition market_symbol_only :: market where
  "market_symbol_only =
     (example_market ''PT-25SEP'' ''2026-01-11T12:00:00.000Z'' (4 / 100))
       \<lparr>underlyingAsset_symbol := Some ''SUSDE-x''\<rparr>"

text \<open>One chain returns an expired market and the two markets of the scenario.\<close>

definition expired_net :: "nat \<Rightarrow> fetch_outcome" where
  "expired_net c = (if c = 1 then Fetch_json (Some [market_180d, market_expired, market_10d])
                    else Fetch_json None)"

text \<open>One chain returns an expired market and one valid market.\<close>

definition mostly_expired_net :: "nat \<Rightarrow> fetch_outcome" where
  "mostly_expired_net c = (if c = 1 then Fetch_json (Some [market_expired, market_10d])
                           else Fetch_json None)"

text \<open>The candidates of the feed with the expired market.\<close>

definition expired_candidates :: "tagged_market list" where
  "expired_candidates = susdeMarkets (allMarkets (responses expired_net))"

text \<open>
  A record whose expiry is not a date, and a feed that returns the far market, that
  record and the near market, in this order.
\<close>

definition market_bad_date :: market where
  "market_bad_date = example_market ''sUSDe'' ''not-a-date'' (9 / 100)"

definition bad_date_net :: "nat \<Rightarrow> fetch_outcome" where
  "bad_date_net c = (if c = 1 then Fetch_json (Some [market_180d, market_bad_date, market_10d])
                     else Fetch_json (Some []))"

text \<open>A far market with an implied rate of 0.0100015, and a feed with it and the near market.\<close>

definition market_180d_fine :: market where
  "market_180d_fine =
     example_market ''sUSDe'' ''2026-06-30T12:00:00.000Z'' (100015 / 10000000)"

definition rounding_net :: "nat \<Rightarrow> fetch_outcome" where
  "rounding_net c = (if c = 1 then Fetch_json (Some [market_10d, market_180d_fine])
                     else Fetch_json (Some []))"

text \<open>
  Markets for the resolution of the yield fields: nested yields 0 with top-level yields
  present; nested yields present and not 0; no details object; nothing but an aggregated
  yield.
\<close>

definition market_nested_zero :: market where
  "market_nested_zero =
     market_zero_nested\<lparr>underlyingApy := Some (double_of (2 / 100))\<rparr>"

definition market_nested_wins :: market where
  "market_nested_wins =
     market_zero_nested
       \<lparr>underlyingApy := Some (double_of (2 / 100)),
        details := Some \<lparr>d_impliedApy = Some (double_of (6 / 100)),
                         d_underlyingApy = Some (double_of (7 / 100)),
                         d_aggregatedApy = Some (double_of (3 / 100)), d_liquidity = None\<rparr>\<rparr>"

definition market_top_only :: market where
  "market_top_only =
     market_zero_nested\<lparr>underlyingApy := Some (double_of (2 / 100)), details := None\<rparr>"

definition market_alias_only :: market where
  "market_alias_only =
     market_zero_nested\<lparr>impliedApy := None, underlyingApy := Some 0\<rparr>"

section \<open>Properties of the arithmetic\<close>

text \<open>
  Known values: the doubles nearest to 0.1 and to 1/3, a tie that goes to the even
  significand, \<open>0.07 * 100\<close>, which is not 7, and \<open>(1.005).toFixed(2)\<close>, which is 1.
\<close>

lemma double_of_known_values:
  "double_of (1 / 10) = 3602879701896397 / 36028797018963968"
  "double_of (1 / 3) = 6004799503160661 / 18014398509481984"
  "double_of (9007199254740993) = 9007199254740992"
  "double_of (9007199254740995) = 9007199254740996"
  "fmul (double_of (7 / 100)) 100 = 7881299347898369 / 1125899906842624"
  "toFixed 2 (double_of (1005 / 1000)) = 1"
  by code_simp+

section \<open>Properties of the sort\<close>

text \<open>
  With a comparator that agrees with a linear order on keys the sort is the stable sort
  by that key, which is what every engine returns then; with any comparator the result
  is a permutation of the input.
\<close>

lemma insort_key_last: "\<forall>x \<in> set xs. f x < f a \<Longrightarrow> insort_key f a xs = xs @ [a]"
  by (induction xs) auto

lemma sort_key_strict_desc:
  "sorted_wrt (\<lambda>a b. f b < f a) zs \<Longrightarrow> sort_key f zs = rev zs"
  by (induction zs) (auto simp add: insort_key_last)

lemma run_rest_le: "run_rest d cmp p rest \<le> length rest"
  by (induction rest arbitrary: p) auto

lemma run_rest_asc:
  assumes "\<forall>a \<in> set (p # rest). \<forall>b \<in> set (p # rest). (cmp a b < 0) = (f a < f b)"
  shows "sorted (map (f :: 'a \<Rightarrow> 'k::linorder) (p # take (run_rest False cmp p rest) rest))"
  using assms
proof (induction rest arbitrary: p)
  case Nil
  then show ?case by simp
next
  case (Cons c rest)
  show ?case
  proof (cases "cmp c p < 0")
    case True
    then show ?thesis by simp
  next
    case False
    with Cons.prems have le: "f p \<le> f c" by (simp add: not_less)
    from Cons.prems have "sorted (map f (c # take (run_rest False cmp c rest) rest))"
      by (intro Cons.IH) auto
    with le False show ?thesis by auto
  qed
qed

lemma run_rest_desc:
  assumes "\<forall>a \<in> set (p # rest). \<forall>b \<in> set (p # rest). (cmp a b < 0) = (f a < f b)"
  shows "sorted_wrt (\<lambda>a b. (f :: 'a \<Rightarrow> 'k::linorder) b < f a)
           (p # take (run_rest True cmp p rest) rest)"
  using assms
proof (induction rest arbitrary: p)
  case Nil
  then show ?case by simp
next
  case (Cons c rest)
  show ?case
  proof (cases "cmp c p < 0")
    case False
    then show ?thesis by simp
  next
    case True
    with Cons.prems have lt: "f c < f p" by simp
    from Cons.prems have "sorted_wrt (\<lambda>a b. f b < f a) (c # take (run_rest True cmp c rest) rest)"
      by (intro Cons.IH) auto
    with lt True show ?thesis by (auto simp add: not_le intro: less_trans)
  qed
qed


lemma binary_search_bounds:
  assumes "sorted (map f (take start ys))" and "start \<le> length ys"
    and "\<forall>y \<in> set ys. (cmp pivot y < 0) = ((f :: 'a \<Rightarrow> 'k::linorder) pivot < f y)"
    and "left \<le> right" and "right \<le> start"
    and "\<forall>i < left. f (ys ! i) \<le> f pivot"
    and "\<forall>i. right \<le> i \<and> i < start \<longrightarrow> f pivot < f (ys ! i)"
  shows "binary_search cmp pivot ys left right \<le> start
         \<and> (\<forall>i < binary_search cmp pivot ys left right. f (ys ! i) \<le> f pivot)
         \<and> (\<forall>i. binary_search cmp pivot ys left right \<le> i \<and> i < start \<longrightarrow> f pivot < f (ys ! i))"
  using assms
proof (induction cmp pivot ys left right rule: binary_search.induct)
  case (1 cmp pivot xs left right)
  let ?mid = "left + (right - left) div 2"
  show ?case
  proof (cases "left < right")
    case False
    then have "binary_search cmp pivot xs left right = left"
      by (subst binary_search.simps) simp
    with False "1.prems" show ?thesis by auto
  next
    case True
    then have mid: "left \<le> ?mid" "?mid < right" by auto
    with "1.prems" have midlt: "?mid < start" "?mid < length xs" by auto
    have nth: "\<And>i j. i \<le> j \<Longrightarrow> j < start \<Longrightarrow> f (xs ! i) \<le> f (xs ! j)"
    proof -
      fix i j assume ij: "i \<le> j" "j < start"
      with "1.prems"(2) have "map f (take start xs) ! i \<le> map f (take start xs) ! j"
        by (intro sorted_nth_mono [OF "1.prems"(1)]) auto
      with ij "1.prems"(2) show "f (xs ! i) \<le> f (xs ! j)" by simp
    qed
    show ?thesis
    proof (cases "cmp pivot (xs ! ?mid) < 0")
      case lt: True
      with "1.prems"(3) midlt have p: "f pivot < f (xs ! ?mid)" by auto
      have "\<forall>i. ?mid \<le> i \<and> i < start \<longrightarrow> f pivot < f (xs ! i)"
        using p nth by (meson less_le_trans)
      with "1.prems" mid have
        "binary_search cmp pivot xs left ?mid \<le> start
         \<and> (\<forall>i < binary_search cmp pivot xs left ?mid. f (xs ! i) \<le> f pivot)
         \<and> (\<forall>i. binary_search cmp pivot xs left ?mid \<le> i \<and> i < start \<longrightarrow> f pivot < f (xs ! i))"
        by (intro "1.IH"(1) True lt) auto
      moreover from True lt have "binary_search cmp pivot xs left right
          = binary_search cmp pivot xs left ?mid"
        by (subst binary_search.simps) simp
      ultimately show ?thesis by simp
    next
      case ge: False
      with "1.prems"(3) midlt have p: "f (xs ! ?mid) \<le> f pivot" by (auto simp add: not_less)
      have "\<forall>i < ?mid + 1. f (xs ! i) \<le> f pivot"
      proof (intro allI impI)
        fix i assume "i < ?mid + 1"
        then have "i \<le> ?mid" by simp
        with midlt have "f (xs ! i) \<le> f (xs ! ?mid)" by (intro nth) auto
        with p show "f (xs ! i) \<le> f pivot" by simp
      qed
      with "1.prems" mid have
        "binary_search cmp pivot xs (?mid + 1) right \<le> start
         \<and> (\<forall>i < binary_search cmp pivot xs (?mid + 1) right. f (xs ! i) \<le> f pivot)
         \<and> (\<forall>i. binary_search cmp pivot xs (?mid + 1) right \<le> i \<and> i < start \<longrightarrow> f pivot < f (xs ! i))"
        by (intro "1.IH"(2) True ge) auto
      moreover from True ge have "binary_search cmp pivot xs left right
          = binary_search cmp pivot xs (?mid + 1) right"
        by (subst binary_search.simps) simp
      ultimately show ?thesis by simp
    qed
  qed
qed


lemma insert_sorted_stable:
  fixes f :: "'a \<Rightarrow> 'k::linorder"
  assumes P: "P = sort_key f A"
    and le: "\<forall>y \<in> set (take left P). f y \<le> f x"
    and gt: "\<forall>y \<in> set (drop left P). f x < f y"
  shows "take left P @ x # drop left P = sort_key f (A @ [x])"
proof (rule properties_for_sort_key [symmetric])
  have "mset (take left P) + mset (drop left P) = mset P"
    by (metis append_take_drop_id mset_append)
  then show "mset (take left P @ x # drop left P) = mset (A @ [x])"
    by (simp add: P)
next
  fix k
  have stable: "filter (\<lambda>y. f k = f y) P = filter (\<lambda>y. f k = f y) A"
    using sort_key_stable [of f "f k" A] by (simp add: P eq_commute)
  have split: "filter (\<lambda>y. f k = f y) (take left P) @ filter (\<lambda>y. f k = f y) (drop left P)
               = filter (\<lambda>y. f k = f y) P"
    by (simp only: filter_append [symmetric] append_take_drop_id)
  show "filter (\<lambda>y. f k = f y) (take left P @ x # drop left P)
        = filter (\<lambda>y. f k = f y) (A @ [x])"
  proof (cases "f k = f x")
    case True
    with gt have "filter (\<lambda>y. f k = f y) (drop left P) = []"
      by (auto simp add: filter_empty_conv)
    with split stable True show ?thesis by simp
  next
    case False
    with split stable show ?thesis by simp
  qed
next
  have s: "sorted (map f P)" by (simp add: P)
  then have "sorted (take left (map f P))" and "sorted (drop left (map f P))"
    by (rule sorted_wrt_take, rule sorted_wrt_drop)
  then have "sorted (map f (take left P))" and "sorted (map f (drop left P))"
    by (simp_all only: take_map drop_map)
  with le gt show "sorted (map f (take left P @ x # drop left P))"
    by (auto simp add: sorted_append intro: less_imp_le order_trans le_less_trans)
qed

lemma sorted_upto_mset: "sorted_upto f xs n ys \<Longrightarrow> mset ys = mset xs"
proof -
  assume a: "sorted_upto f xs n ys"
  have "mset ys = mset (take n ys) + mset (drop n ys)"
    by (simp only: mset_append [symmetric] append_take_drop_id)
  also from a have "\<dots> = mset (take n xs) + mset (drop n xs)"
    by (simp add: sorted_upto_def)
  also have "\<dots> = mset xs"
    by (simp only: mset_append [symmetric] append_take_drop_id)
  finally show ?thesis .
qed

lemma insert_step_sorted_upto:
  fixes f :: "'a \<Rightarrow> 'k::linorder"
  assumes cons: "\<forall>a \<in> set xs. \<forall>b \<in> set xs. (cmp a b < 0) = (f a < f b)"
    and inv: "sorted_upto f xs n ys" and n: "n < length xs"
  shows "sorted_upto f xs (Suc n) (insert_step cmp ys n)"
proof -
  let ?P = "take n ys"
  let ?pivot = "ys ! n"
  let ?r = "binary_search cmp ?pivot ys 0 n"
  from inv have len: "length ys = length xs" and dr: "drop n ys = drop n xs"
    and tk: "?P = sort_key f (take n xs)"
    by (simp_all add: sorted_upto_def)
  from inv have "set ys = set xs"
    by (metis sorted_upto_mset set_mset_mset)
  from dr n len have pivot: "?pivot = xs ! n"
    by (metis Cons_nth_drop_Suc nth_via_drop)
  with n have "?pivot \<in> set xs" by simp
  with cons \<open>set ys = set xs\<close>
  have c: "\<forall>y \<in> set ys. (cmp ?pivot y < 0) = (f ?pivot < f y)" by simp
  have sP: "sorted (map f ?P)" by (simp add: tk)
  from n len have nle: "n \<le> length ys" by simp
  have b: "?r \<le> n \<and> (\<forall>i < ?r. f (ys ! i) \<le> f ?pivot)
           \<and> (\<forall>i. ?r \<le> i \<and> i < n \<longrightarrow> f ?pivot < f (ys ! i))"
    using sP nle c
    by (intro binary_search_bounds [where f = f and start = n and ys = ys and cmp = cmp
          and pivot = "ys ! n" and left = 0 and right = n]) auto
  then have r: "?r \<le> n" by simp
  have le: "\<forall>y \<in> set (take ?r ?P). f y \<le> f ?pivot"
  proof
    fix y assume "y \<in> set (take ?r ?P)"
    then obtain i where "i < length (take ?r ?P)" and "take ?r ?P ! i = y"
      by (auto simp add: in_set_conv_nth)
    with r nle have "i < ?r" and "y = ys ! i" by auto
    with b show "f y \<le> f ?pivot" by simp
  qed
  have gt: "\<forall>y \<in> set (drop ?r ?P). f ?pivot < f y"
  proof
    fix y assume "y \<in> set (drop ?r ?P)"
    then obtain i where i: "i < length (drop ?r ?P)" and y: "drop ?r ?P ! i = y"
      by (auto simp add: in_set_conv_nth)
    from i nle have "?r + i < n" by auto
    moreover from y i r nle have "y = ys ! (?r + i)" by auto
    ultimately show "f ?pivot < f y" using b by simp
  qed
  have ins: "take ?r ?P @ ?pivot # drop ?r ?P = sort_key f (take n xs @ [?pivot])"
    using tk le gt by (rule insert_sorted_stable)
  define X where "X = take ?r ?P @ ?pivot # drop ?r ?P"
  have shape: "insert_step cmp ys n = X @ drop (Suc n) ys"
    using r by (simp add: X_def insert_step_def Let_def drop_take min_absorb2)
  have l: "length X = Suc n"
    using r nle by (simp add: X_def)
  have "take (Suc n) (insert_step cmp ys n) = X"
    by (simp add: shape l)
  moreover have "drop (Suc n) (insert_step cmp ys n) = drop (Suc n) ys"
    by (simp add: shape l)
  moreover from dr have "drop (Suc n) ys = drop (Suc n) xs"
    by (metis drop_drop plus_1_eq_Suc)
  moreover from n have "take (Suc n) xs = take n xs @ [xs ! n]"
    by (rule take_Suc_conv_app_nth)
  moreover have "length (insert_step cmp ys n) = length xs"
    using shape l len n by simp
  ultimately show ?thesis
    using ins pivot by (simp add: sorted_upto_def X_def)
qed


lemma foldl_insert_step:
  fixes f :: "'a \<Rightarrow> 'k::linorder"
  assumes cons: "\<forall>a \<in> set xs. \<forall>b \<in> set xs. (cmp a b < 0) = (f a < f b)"
    and inv: "sorted_upto f xs start ys" and "start \<le> k" and "k \<le> length xs"
  shows "sorted_upto f xs k (foldl (insert_step cmp) ys [start..<k])"
  using assms(3,4)
proof (induction k)
  case 0
  with inv show ?case by simp
next
  case (Suc k)
  show ?case
  proof (cases "start \<le> k")
    case True
    with Suc have "sorted_upto f xs k (foldl (insert_step cmp) ys [start..<k])" by simp
    moreover from Suc.prems have "k < length xs" by simp
    ultimately have "sorted_upto f xs (Suc k)
        (insert_step cmp (foldl (insert_step cmp) ys [start..<k]) k)"
      using cons by (intro insert_step_sorted_upto)
    with True show ?thesis by simp
  next
    case False
    with Suc.prems have "start = Suc k" by simp
    with inv show ?thesis by simp
  qed
qed

lemma count_and_make_run_sorted_upto:
  fixes f :: "'a \<Rightarrow> 'k::linorder"
  assumes cons: "\<forall>a \<in> set xs. \<forall>b \<in> set xs. (cmp a b < 0) = (f a < f b)"
  shows "sorted_upto f xs (snd (count_and_make_run cmp xs)) (fst (count_and_make_run cmp xs))
         \<and> snd (count_and_make_run cmp xs) \<le> length xs"
proof (cases xs)
  case Nil
  then show ?thesis by (simp add: count_and_make_run_def sorted_upto_def)
next
  case (Cons a xs')
  show ?thesis
  proof (cases xs')
    case Nil
    with Cons show ?thesis by (simp add: count_and_make_run_def sorted_upto_def)
  next
    case (Cons b rest)
    with \<open>xs = a # xs'\<close> have xs: "xs = a # b # rest" by simp
    from cons xs have cb: "\<forall>x \<in> set (b # rest). \<forall>y \<in> set (b # rest). (cmp x y < 0) = (f x < f y)"
      by simp
    from cons xs have ab: "(cmp b a < 0) = (f b < f a)" by simp
    show ?thesis
    proof (cases "cmp b a < 0")
      case False
      let ?n = "2 + run_rest False cmp b rest"
      have n: "?n \<le> length xs" using run_rest_le [of False cmp b rest] xs by simp
      from cb have "sorted (map f (b # take (run_rest False cmp b rest) rest))"
        by (rule run_rest_asc)
      with False ab have "sorted (map f (take ?n xs))"
        by (auto simp add: xs not_less)
      then have "sort_key f (take ?n xs) = take ?n xs"
        by (rule sort_key_id_if_sorted)
      with False n show ?thesis
        by (simp add: count_and_make_run_def xs sorted_upto_def Let_def)
    next
      case True
      let ?n = "2 + run_rest True cmp b rest"
      have n: "?n \<le> length xs" using run_rest_le [of True cmp b rest] xs by simp
      from cb have "sorted_wrt (\<lambda>x y. f y < f x) (b # take (run_rest True cmp b rest) rest)"
        by (rule run_rest_desc)
      with True ab have "sorted_wrt (\<lambda>x y. f y < f x) (take ?n xs)"
        by (auto simp add: xs intro: less_trans)
      then have "sort_key f (take ?n xs) = rev (take ?n xs)"
        by (rule sort_key_strict_desc)
      moreover have "length (rev (take ?n xs)) = ?n" using n by simp
      ultimately show ?thesis
        using True n by (simp add: count_and_make_run_def xs sorted_upto_def Let_def)
    qed
  qed
qed

lemma array_sort_stable:
  fixes f :: "'a \<Rightarrow> 'k::linorder"
  assumes cons: "\<forall>a \<in> set xs. \<forall>b \<in> set xs. (cmp a b < 0) = (f a < f b)"
  shows "array_sort cmp xs = sort_key f xs"
proof (cases "length xs < 2")
  case True
  then have "sorted (map f xs)"
    by (cases xs; cases "tl xs") auto
  then have "sort_key f xs = xs" by (rule sort_key_id_if_sorted)
  with True show ?thesis by (simp add: array_sort_def)
next
  case False
  let ?ys = "fst (count_and_make_run cmp xs)"
  let ?n = "snd (count_and_make_run cmp xs)"
  from cons have inv: "sorted_upto f xs ?n ?ys" and n: "?n \<le> length xs"
    using count_and_make_run_sorted_upto by blast+
  then have len: "length ?ys = length xs" by (simp add: sorted_upto_def)
  from cons inv n have "sorted_upto f xs (length xs) (foldl (insert_step cmp) ?ys [?n..<length xs])"
    by (intro foldl_insert_step) simp_all
  then have "take (length xs) (foldl (insert_step cmp) ?ys [?n..<length xs]) = sort_key f xs"
    and "length (foldl (insert_step cmp) ?ys [?n..<length xs]) = length xs"
    by (simp_all add: sorted_upto_def)
  then have "foldl (insert_step cmp) ?ys [?n..<length xs] = sort_key f xs"
    by (metis order_refl take_all)
  with False len show ?thesis
    by (simp add: array_sort_def binary_insertion_sort_def)
qed


lemma binary_search_le: "left \<le> right \<Longrightarrow> binary_search cmp pivot xs left right \<le> right"
proof (induction cmp pivot xs left right rule: binary_search.induct)
  case (1 cmp pivot xs left right)
  show ?case
  proof (cases "left < right")
    case False
    then have "binary_search cmp pivot xs left right = left"
      by (subst binary_search.simps) simp
    with "1.prems" show ?thesis by simp
  next
    case True
    let ?mid = "left + (right - left) div 2"
    from True have mid: "left \<le> ?mid" "?mid < right" by auto
    show ?thesis
    proof (cases "cmp pivot (xs ! ?mid) < 0")
      case lt: True
      with True mid have "binary_search cmp pivot xs left ?mid \<le> ?mid"
        by (intro "1.IH"(1)) auto
      moreover from True lt have "binary_search cmp pivot xs left right
          = binary_search cmp pivot xs left ?mid"
        by (subst binary_search.simps) simp
      ultimately show ?thesis using mid by simp
    next
      case ge: False
      with True mid have "binary_search cmp pivot xs (?mid + 1) right \<le> right"
        by (intro "1.IH"(2)) auto
      moreover from True ge have "binary_search cmp pivot xs left right
          = binary_search cmp pivot xs (?mid + 1) right"
        by (subst binary_search.simps) simp
      ultimately show ?thesis by simp
    qed
  qed
qed

lemma mset_move_to:
  assumes "l \<le> start" and "start < length xs"
  shows "mset (take l xs @ xs ! start # take (start - l) (drop l xs) @ drop (Suc start) xs)
         = mset xs"
proof -
  from assms(1) have "take start xs = take (l + (start - l)) xs" by simp
  also have "\<dots> = take l xs @ take (start - l) (drop l xs)" by (rule take_add)
  finally have t: "take start xs = take l xs @ take (start - l) (drop l xs)" .
  from assms(2) have "xs = take start xs @ xs ! start # drop (Suc start) xs"
    by (rule id_take_nth_drop)
  then have "mset xs = mset (take start xs @ xs ! start # drop (Suc start) xs)"
    by simp
  also have "\<dots> = mset (take l xs @ xs ! start # take (start - l) (drop l xs)
                         @ drop (Suc start) xs)"
    by (simp only: t) simp
  finally show ?thesis by simp
qed

lemma mset_insert_step:
  assumes "start < length xs"
  shows "mset (insert_step cmp xs start) = mset xs"
proof -
  have "binary_search cmp (xs ! start) xs 0 start \<le> start"
    by (rule binary_search_le) simp
  with assms have "mset (take (binary_search cmp (xs ! start) xs 0 start) xs
      @ xs ! start # take (start - binary_search cmp (xs ! start) xs 0 start)
          (drop (binary_search cmp (xs ! start) xs 0 start) xs) @ drop (Suc start) xs) = mset xs"
    by (intro mset_move_to)
  then show ?thesis
    by (simp only: insert_step_def Let_def)
qed

lemma mset_foldl_insert_step:
  "k \<le> length xs \<Longrightarrow> mset (foldl (insert_step cmp) xs [start..<k]) = mset xs"
proof (induction k)
  case 0
  then show ?case by simp
next
  case (Suc k)
  show ?case
  proof (cases "start \<le> k")
    case False
    then show ?thesis by simp
  next
    case True
    from Suc have m: "mset (foldl (insert_step cmp) xs [start..<k]) = mset xs" by simp
    then have "length (foldl (insert_step cmp) xs [start..<k]) = length xs"
      by (rule mset_eq_length)
    with Suc.prems have "k < length (foldl (insert_step cmp) xs [start..<k])" by simp
    then have "mset (insert_step cmp (foldl (insert_step cmp) xs [start..<k]) k)
               = mset (foldl (insert_step cmp) xs [start..<k])"
      by (rule mset_insert_step)
    with m True show ?thesis by simp
  qed
qed

lemma mset_count_and_make_run: "mset (fst (count_and_make_run cmp xs)) = mset xs"
proof -
  have "mset (take n ys) + mset (drop n ys) = mset ys" for n and ys :: "'a list"
    by (metis append_take_drop_id mset_append)
  then show ?thesis
    by (simp add: count_and_make_run_def Let_def split: list.splits)
qed

lemma mset_array_sort: "mset (array_sort cmp xs) = mset xs"
proof -
  have "mset (foldl (insert_step cmp) (fst (count_and_make_run cmp xs))
               [snd (count_and_make_run cmp xs)..<length (fst (count_and_make_run cmp xs))])
        = mset (fst (count_and_make_run cmp xs))"
    by (rule mset_foldl_insert_step) simp
  then show ?thesis
    by (simp add: array_sort_def binary_insertion_sort_def mset_count_and_make_run)
qed

lemma set_sort_by_expiry: "set (sort_by_expiry env ms) = {m \<in> set ms. has_expiry m}"
proof -
  have "set (sort_by_expiry env ms) = set (filter has_expiry ms)"
    unfolding sort_by_expiry_def by (rule mset_eq_setD) (rule mset_array_sort)
  then show ?thesis by simp
qed

lemma sort_by_expiry_stable:
  assumes "\<forall>m \<in> set ms. has_expiry m \<longrightarrow> expiry_time env m \<noteq> None"
  shows "sort_by_expiry env ms = sort_key (expiry_time env) (filter has_expiry ms)"
  unfolding sort_by_expiry_def
proof (rule array_sort_stable, intro ballI)
  fix a b
  assume "a \<in> set (filter has_expiry ms)" and "b \<in> set (filter has_expiry ms)"
  with assms have "expiry_time env a \<noteq> None" and "expiry_time env b \<noteq> None"
    by simp_all
  then obtain ta tb where "expiry_time env a = Some ta" and "expiry_time env b = Some tb"
    by blast
  then show "(expiry_cmp env a b < 0) = (expiry_time env a < expiry_time env b)"
    by (simp add: expiry_cmp_def)
qed

section \<open>Properties of the history endpoint\<close>

lemma limitedDays_1000: "limitedDays (req\<lparr>query_days := Some 1000\<rparr>) = 365"
  by (simp add: limitedDays_def days_of_def)

lemma limitedDays_365: "limitedDays (req\<lparr>query_days := Some 365\<rparr>) = 365"
  by (simp add: limitedDays_def days_of_def)

lemma limitedDays_0: "limitedDays (req\<lparr>query_days := Some 0\<rparr>) = 90"
  by (simp add: limitedDays_def days_of_def)

lemma limitedDays_absent: "limitedDays (req\<lparr>query_days := None\<rparr>) = 90"
  by (simp add: limitedDays_def days_of_def)

lemma limitedDays_90: "limitedDays (req\<lparr>query_days := Some 90\<rparr>) = 90"
  by (simp add: limitedDays_def days_of_def)

text \<open>
  C2, as stated, fails in its second half: \<open>days=0\<close> is falsy, so the default 90 is used
  and a non-empty table gives a non-empty answer.
\<close>

theorem history_get_0_counterexample:
  "history_handler (select_desc [example_row]) (get_days 0) = History_ok 1 [example_row]
   \<and> history_handler (select_desc [example_row]) (get_days 0) \<noteq> History_ok 0 []"
  by (simp add: history_handler_def get_days_def limitedDays_def days_of_def
      select_desc_def)

lemma limitedDays_le: "limitedDays req \<le> 365"
  by (simp add: limitedDays_def)

lemma limitedDays_large: "limitedDays (req\<lparr>query_days := Some (365 + int k)\<rparr>) = 365"
  by (simp add: limitedDays_def days_of_def)

lemma limitedDays_positive:
  "limitedDays (req\<lparr>query_days := Some (1 + int k)\<rparr>) = min (1 + int k) 365"
  by (simp add: limitedDays_def days_of_def)

lemma history_handler_asks_at_most_365:
  "history_handler supabase_get req = history_handler (\<lambda>n. supabase_get (min n 365)) req"
proof -
  have "min (limitedDays req) 365 = limitedDays req"
    using limitedDays_le [of req] by simp
  then show ?thesis by (simp add: history_handler_def)
qed

text \<open>
  C2 (amended): the day count is clamped to a hard upper bound of 365: the limit handed
  to the storage service never exceeds 365, the answer depends on the service only
  through limits of at most 365, every count from 365 up (1000 among them) behaves
  identically to 365, and a positive count below that is handed on as it is. Requesting
  0 days behaves identically to giving no day count and to requesting the default 90
  days.
\<close>

theorem history_clamp:
  "history_handler supabase_get (req\<lparr>query_days := Some 1000\<rparr>)
     = history_handler supabase_get (req\<lparr>query_days := Some 365\<rparr>)
   \<and> history_handler supabase_get (req\<lparr>query_days := Some 0\<rparr>)
     = history_handler supabase_get (req\<lparr>query_days := Some 90\<rparr>)
   \<and> history_handler supabase_get (req\<lparr>query_days := Some 0\<rparr>)
     = history_handler supabase_get (req\<lparr>query_days := None\<rparr>)
   \<and> limitedDays req \<le> 365
   \<and> history_handler supabase_get (req\<lparr>query_days := Some (365 + int k)\<rparr>)
     = history_handler supabase_get (req\<lparr>query_days := Some 365\<rparr>)
   \<and> history_handler supabase_get req
     = history_handler (\<lambda>n. supabase_get (min n 365)) req
   \<and> limitedDays (req\<lparr>query_days := Some (1 + int k)\<rparr>) = min (1 + int k) 365"
proof (intro conjI)
  show "history_handler supabase_get (req\<lparr>query_days := Some 1000\<rparr>)
     = history_handler supabase_get (req\<lparr>query_days := Some 365\<rparr>)"
    by (simp add: history_handler_def limitedDays_1000 limitedDays_365)
  show "history_handler supabase_get (req\<lparr>query_days := Some 0\<rparr>)
     = history_handler supabase_get (req\<lparr>query_days := Some 90\<rparr>)"
    by (simp add: history_handler_def limitedDays_0 limitedDays_90)
  show "history_handler supabase_get (req\<lparr>query_days := Some 0\<rparr>)
     = history_handler supabase_get (req\<lparr>query_days := None\<rparr>)"
    by (simp add: history_handler_def limitedDays_0 limitedDays_absent)
  show "limitedDays req \<le> 365"
    by (rule limitedDays_le)
  show "history_handler supabase_get (req\<lparr>query_days := Some (365 + int k)\<rparr>)
     = history_handler supabase_get (req\<lparr>query_days := Some 365\<rparr>)"
    by (simp add: history_handler_def limitedDays_large limitedDays_365)
  show "history_handler supabase_get req
     = history_handler (\<lambda>n. supabase_get (min n 365)) req"
    by (rule history_handler_asks_at_most_365)
  show "limitedDays (req\<lparr>query_days := Some (1 + int k)\<rparr>) = min (1 + int k) 365"
    by (rule limitedDays_positive)
qed

lemma history_rows:
  "req_method req \<noteq> ''OPTIONS'' \<Longrightarrow> supabase_get (limitedDays req) = Rows data \<Longrightarrow>
   history_handler supabase_get req = History_ok (length data) (rev data)"
  by (simp add: history_handler_def)

lemma sorted_newest_reversed:
  "sorted (map date (rev (take n (rev (sort_key date tbl)))))"
proof -
  let ?xs = "sort_key date tbl"
  have e: "rev (take n (rev ?xs)) = drop (length ?xs - n) ?xs"
    by (simp add: take_rev)
  have "sorted (map date ?xs)"
    by (rule sorted_sort_key)
  then have "sorted (drop (length ?xs - n) (map date ?xs))"
    by (rule sorted_wrt_drop)
  then have "sorted (map date (drop (length ?xs - n) ?xs))"
    by (simp only: drop_map)
  with e show ?thesis by simp
qed

lemma descending_rev: "sorted_wrt (\<lambda>a b. date b \<le> date a) data \<Longrightarrow> sorted (map date (rev data))"
  by (simp add: sorted_map sorted_wrt_rev)

text \<open>
  C7: for every request, the history read returns the reverse of what the storage service
  returned, so a newest-first fetch comes back ascending by date; over a table queried
  newest-first the answer is sorted ascending by date, in whatever order the table holds
  its rows.
\<close>

theorem history_ascending:
  assumes "req_method req \<noteq> ''OPTIONS''"
  shows "(supabase_get (limitedDays req) = Rows data \<longrightarrow>
            history_handler supabase_get req = History_ok (length data) (rev data)
            \<and> (sorted_wrt (\<lambda>a b. date b \<le> date a) data \<longrightarrow> sorted (map date (rev data))))
       \<and> (0 \<le> limitedDays req \<longrightarrow>
            (\<exists>out. history_handler (select_desc tbl) req = History_ok (length out) out
                   \<and> out = rev (take (nat (limitedDays req)) (rev (sort_key date tbl)))
                   \<and> sorted (map date out)))"
proof (intro conjI impI)
  assume "supabase_get (limitedDays req) = Rows data"
  with assms show "history_handler supabase_get req = History_ok (length data) (rev data)"
    by (rule history_rows)
next
  assume "sorted_wrt (\<lambda>a b. date b \<le> date a) data"
  then show "sorted (map date (rev data))" by (rule descending_rev)
next
  assume "0 \<le> limitedDays req"
  then have "select_desc tbl (limitedDays req)
             = Rows (take (nat (limitedDays req)) (rev (sort_key date tbl)))"
    by (simp add: select_desc_def)
  with assms have "history_handler (select_desc tbl) req
      = History_ok (length (take (nat (limitedDays req)) (rev (sort_key date tbl))))
          (rev (take (nat (limitedDays req)) (rev (sort_key date tbl))))"
    by (rule history_rows)
  then show "\<exists>out. history_handler (select_desc tbl) req = History_ok (length out) out
                   \<and> out = rev (take (nat (limitedDays req)) (rev (sort_key date tbl)))
                   \<and> sorted (map date out)"
    using sorted_newest_reversed [of "nat (limitedDays req)" tbl] by simp
qed

theorem history_ascending_witness:
  "req_method (get_days 2) \<noteq> ''OPTIONS'' \<and> 0 \<le> limitedDays (get_days 2)
   \<and> select_desc example_table (limitedDays (get_days 2))
       = Rows [example_row\<lparr>date := ''2026-01-03''\<rparr>, example_row\<lparr>date := ''2026-01-02''\<rparr>]
   \<and> history_handler (select_desc example_table) (get_days 2)
       = History_ok 2 [example_row\<lparr>date := ''2026-01-02''\<rparr>, example_row\<lparr>date := ''2026-01-03''\<rparr>]
   \<and> sorted (map date [example_row\<lparr>date := ''2026-01-02''\<rparr>, example_row\<lparr>date := ''2026-01-03''\<rparr>])"
proof -
  have m: "req_method (get_days 2) \<noteq> ''OPTIONS''"
    by (simp add: get_days_def)
  have l: "0 \<le> limitedDays (get_days 2)"
    by (simp add: get_days_def limitedDays_def days_of_def)
  have r: "select_desc example_table (limitedDays (get_days 2))
       = Rows [example_row\<lparr>date := ''2026-01-03''\<rparr>, example_row\<lparr>date := ''2026-01-02''\<rparr>]"
    by code_simp
  from history_ascending [OF m, of "select_desc example_table"
      "[example_row\<lparr>date := ''2026-01-03''\<rparr>, example_row\<lparr>date := ''2026-01-02''\<rparr>]" example_table] r l
  show ?thesis using m by auto
qed


section \<open>Properties of the snapshot store\<close>

lemma store_put_twice: "store_put s (store_put s tbl) = store_put s tbl"
  by (simp add: store_put_def)

lemma rows_of_date_put: "rows_of_date (date s) (store_put s tbl) = [s]"
  by (simp add: store_put_def rows_of_date_def)

lemma distinct_store_put: "distinct (map date tbl) \<Longrightarrow> distinct (map date (store_put s tbl))"
  by (auto simp add: store_put_def distinct_map_filter)

lemma set_store_put: "set (store_put s tbl) = {r \<in> set tbl. date r \<noteq> date s} \<union> {s}"
  by (auto simp add: store_put_def)



lemma handler_rerun:
  "snd (handler env net upsert_ok (snd (handler env net upsert_ok tbl)))
   = snd (handler env net upsert_ok tbl)"
  by (simp add: handler_def upsert_ok_def Let_def store_put_twice)

text \<open>
  C8: the store holds at most one row per date. Writing the same snapshot twice leaves the
  table as one write does, with exactly one row of that date, equal to the input; writing
  two snapshots of one date leaves exactly the second as the row of that date, and the
  first, if its \<open>term_spread\<close> differs, is no longer in the table; distinct dates stay
  distinct; running the daily job again on the same inputs leaves the table as the first
  run did.
\<close>

theorem store_one_row_per_date:
  "store_put s (store_put s tbl) = store_put s tbl
   \<and> rows_of_date (date s) (store_put s (store_put s tbl)) = [s]
   \<and> (date s1 = date s2 \<longrightarrow>
        rows_of_date (date s2) (store_put s2 (store_put s1 tbl)) = [s2]
        \<and> (term_spread s1 \<noteq> term_spread s2 \<longrightarrow> s1 \<notin> set (store_put s2 (store_put s1 tbl))))
   \<and> (distinct (map date tbl) \<longrightarrow> distinct (map date (store_put s tbl)))
   \<and> snd (handler env net upsert_ok (snd (handler env net upsert_ok tbl)))
       = snd (handler env net upsert_ok tbl)"
proof (intro conjI impI)
  show "store_put s (store_put s tbl) = store_put s tbl"
    by (rule store_put_twice)
  show "rows_of_date (date s) (store_put s (store_put s tbl)) = [s]"
    by (rule rows_of_date_put)
  show "rows_of_date (date s2) (store_put s2 (store_put s1 tbl)) = [s2]"
    by (rule rows_of_date_put)
  show "distinct (map date (store_put s tbl))" if "distinct (map date tbl)"
    using that by (rule distinct_store_put)
  show "snd (handler env net upsert_ok (snd (handler env net upsert_ok tbl)))
       = snd (handler env net upsert_ok tbl)"
    by (rule handler_rerun)
next
  assume "date s1 = date s2" and "term_spread s1 \<noteq> term_spread s2"
  then show "s1 \<notin> set (store_put s2 (store_put s1 tbl))"
    by (auto simp add: set_store_put)
qed

theorem store_one_row_per_date_witness:
  "date (example_row\<lparr>term_spread := 1\<rparr>) = date (example_row\<lparr>term_spread := 2\<rparr>)
   \<and> term_spread (example_row\<lparr>term_spread := 1\<rparr>) \<noteq> term_spread (example_row\<lparr>term_spread := 2\<rparr>)
   \<and> distinct (map date example_table)
   \<and> rows_of_date ''2026-01-01''
        (store_put (example_row\<lparr>term_spread := 2\<rparr>)
           (store_put (example_row\<lparr>term_spread := 1\<rparr>) example_table))
      = [example_row\<lparr>term_spread := 2\<rparr>]
   \<and> example_row\<lparr>term_spread := 1\<rparr>
        \<notin> set (store_put (example_row\<lparr>term_spread := 2\<rparr>)
                 (store_put (example_row\<lparr>term_spread := 1\<rparr>) example_table))
   \<and> distinct (map date (store_put (example_row\<lparr>term_spread := 2\<rparr>) example_table))"
proof -
  have d: "date (example_row\<lparr>term_spread := 1\<rparr>) = date (example_row\<lparr>term_spread := 2\<rparr>)"
    by simp
  have t: "term_spread (example_row\<lparr>term_spread := 1\<rparr>) \<noteq> term_spread (example_row\<lparr>term_spread := 2\<rparr>)"
    by simp
  have x: "distinct (map date example_table)"
    by (simp add: example_table_def example_row_def)
  have e: "date (example_row\<lparr>term_spread := 2\<rparr>) = ''2026-01-01''"
    by (simp add: example_row_def)
  from store_one_row_per_date [of "example_row\<lparr>term_spread := 2\<rparr>" example_table
      "example_row\<lparr>term_spread := 1\<rparr>" "example_row\<lparr>term_spread := 2\<rparr>"] d t x e
  show ?thesis by simp
qed


section \<open>Properties of matching\<close>

lemma str_includes_iff: "str_includes s t \<longleftrightarrow> (\<exists>pre post. s = pre @ t @ post)"
proof (induction s)
  case Nil
  then show ?case by auto
next
  case (Cons c s)
  have pre: "take (length t) (c # s) = t \<longleftrightarrow> (\<exists>post. c # s = t @ post)"
  proof
    assume "take (length t) (c # s) = t"
    then have "c # s = t @ drop (length t) (c # s)"
      by (metis append_take_drop_id)
    then show "\<exists>post. c # s = t @ post" ..
  next
    assume "\<exists>post. c # s = t @ post"
    then show "take (length t) (c # s) = t" by auto
  qed
  have "(\<exists>pre post. c # s = pre @ t @ post)
        \<longleftrightarrow> (\<exists>post. c # s = t @ post) \<or> (\<exists>pre post. s = pre @ t @ post)"
  proof
    assume "\<exists>pre post. c # s = pre @ t @ post"
    then obtain pre post where e: "c # s = pre @ t @ post" by blast
    show "(\<exists>post. c # s = t @ post) \<or> (\<exists>pre post. s = pre @ t @ post)"
    proof (cases pre)
      case Nil
      with e show ?thesis by auto
    next
      case (Cons a pre')
      with e have "s = pre' @ t @ post" by simp
      then show ?thesis by blast
    qed
  next
    assume "(\<exists>post. c # s = t @ post) \<or> (\<exists>pre post. s = pre @ t @ post)"
    then show "\<exists>pre post. c # s = pre @ t @ post"
    proof
      assume "\<exists>post. c # s = t @ post"
      then obtain post where "c # s = [] @ t @ post" by auto
      then show ?thesis by blast
    next
      assume "\<exists>pre post. s = pre @ t @ post"
      then obtain pre post where "c # s = (c # pre) @ t @ post" by auto
      then show ?thesis by blast
    qed
  qed
  with pre Cons.IH show ?case by simp
qed


text \<open>
  C3, as stated, fails in the snapshot job: a record whose name contains the symbol with
  more text around it, or whose asset symbol alone contains it, does not qualify there.
\<close>

theorem exact_name_match_counterexample:
  "toLowerCase (or_empty (name market_longer_name)) = [] @ ''susde'' @ '' something''
   \<and> \<not> is_susde market_longer_name
   \<and> toLowerCase (or_empty (underlyingAsset_symbol market_symbol_only)) = [] @ ''susde'' @ ''-x''
   \<and> \<not> is_susde market_symbol_only"
  by code_simp

lemma is_susde_app: "is_susde m \<Longrightarrow> app_is_susde m"
proof -
  assume a: "is_susde m"
  then have n: "toLowerCase (or_empty (name m)) = ''susde''"
    by (simp add: is_susde_def)
  then have "or_empty (name m) \<noteq> []"
    by (auto simp add: toLowerCase_def)
  then have "display_name m = or_empty (name m)"
    by (simp add: display_name_def or_str_def truthy_str_def or_empty_def split: option.splits)
  with n have "str_includes (toLowerCase (display_name m)) ''susde''"
    by simp
  then show ?thesis by (simp add: app_is_susde_def)
qed

text \<open>
  C3 (amended): in the dashboard a record passes the first filter if and only if its
  display name (\<open>name\<close>, else \<open>proName\<close>) or its underlying-asset symbol contains
  \<open>susde\<close> as a case-insensitive substring, and the records that pass are the candidates
  whenever there is one. In the snapshot job a record qualifies if and only if its
  \<open>name\<close>, lower-cased, equals \<open>susde\<close>; every such record passes the dashboard's filter.
\<close>

theorem susde_matching:
  "(app_is_susde m \<longleftrightarrow>
      (\<exists>pre post. toLowerCase (display_name m) = pre @ ''susde'' @ post)
      \<or> (\<exists>pre post. toLowerCase (or_empty (underlyingAsset_symbol m)) = pre @ ''susde'' @ post))
   \<and> (filter app_is_susde ms \<noteq> [] \<longrightarrow> app_candidates ms = Some (filter app_is_susde ms))
   \<and> (x \<in> set (susdeMarkets xs) \<longleftrightarrow> x \<in> set xs \<and> toLowerCase (or_empty (name x)) = ''susde'')
   \<and> (is_susde m \<longrightarrow> app_is_susde m)"
proof (intro conjI)
  show "app_is_susde m \<longleftrightarrow>
      (\<exists>pre post. toLowerCase (display_name m) = pre @ ''susde'' @ post)
      \<or> (\<exists>pre post. toLowerCase (or_empty (underlyingAsset_symbol m)) = pre @ ''susde'' @ post)"
    by (simp only: app_is_susde_def str_includes_iff)
  show "filter app_is_susde ms \<noteq> [] \<longrightarrow> app_candidates ms = Some (filter app_is_susde ms)"
    by (simp add: app_candidates_def)
  show "x \<in> set (susdeMarkets xs) \<longleftrightarrow> x \<in> set xs \<and> toLowerCase (or_empty (name x)) = ''susde''"
    by (simp add: susdeMarkets_def is_susde_def)
  show "is_susde m \<longrightarrow> app_is_susde m"
    using is_susde_app by blast
qed

theorem susde_matching_witness:
  "is_susde market_10d \<and> filter app_is_susde [market_longer_name, market_10d] \<noteq> []
   \<and> app_is_susde market_10d
   \<and> app_candidates [market_longer_name, market_10d] = Some [market_longer_name, market_10d]"
proof -
  have a: "is_susde market_10d" by code_simp
  have b: "filter app_is_susde [market_longer_name, market_10d] = [market_longer_name, market_10d]"
    by code_simp
  have c: "filter app_is_susde [market_longer_name, market_10d] \<noteq> []"
    by (simp only: b) simp
  from susde_matching [of market_10d "[market_longer_name, market_10d]"] a c
  have "app_is_susde market_10d"
    and "app_candidates [market_longer_name, market_10d]
         = Some (filter app_is_susde [market_longer_name, market_10d])"
    by blast+
  with a b c show ?thesis by (simp only: simp_thms)
qed



section \<open>Properties of field resolution\<close>

lemma or_0_or_num:
  "or_0 (or_num a b) = precedence_by_presence (nonzero a) (nonzero b) None"
  by (simp add: or_0_def or_num_def truthy_num_def precedence_by_presence_def nonzero_def
      split: option.splits)

lemma or_0_or_num3:
  "or_0 (or_num (or_num a b) c) = precedence_by_presence (nonzero a) (nonzero b) (nonzero c)"
  by (simp add: or_0_def or_num_def truthy_num_def precedence_by_presence_def nonzero_def
      split: option.splits)


lemma double_of_0: "double_of 0 = 0"
  by (simp add: double_of_def)

lemma fmul_0: "fmul 0 b = 0"
  by (simp add: fmul_def double_of_0)

text \<open>
  C6, as stated, fails: a nested field that is present with value 0 is passed over, and
  the top-level value is the result.
\<close>

theorem precedence_by_presence_counterexample:
  "details_field d_impliedApy market_zero_nested = Some 0
   \<and> impliedApy market_zero_nested = Some (double_of (5 / 100))
   \<and> precedence_by_presence (details_field d_impliedApy market_zero_nested)
        (impliedApy market_zero_nested) None = 0
   \<and> resolve_impliedApy market_zero_nested = double_of (5 / 100)
   \<and> impliedApy_pct market_zero_nested = 5"
  by code_simp

text \<open>
  C6 (amended): each yield field resolves to the first source, in the fixed order nested
  details field, top-level field, alias, that is present and not 0, and to 0 when there
  is none; the resolution is a total function. The alias (the aggregated yield of the
  details object) exists for the underlying yield of the dashboard only.
\<close>

theorem resolution_first_nonzero:
  "resolve_impliedApy m
     = precedence_by_presence (nonzero (details_field d_impliedApy m)) (nonzero (impliedApy m)) None
   \<and> resolve_underlyingApy m
     = precedence_by_presence (nonzero (details_field d_underlyingApy m))
         (nonzero (underlyingApy m)) (nonzero (details_field d_aggregatedApy m))
   \<and> impliedApy_pct m
     = fmul (precedence_by_presence (nonzero (details_field d_impliedApy m))
               (nonzero (impliedApy m)) None) 100
   \<and> underlyingApy_pct m
     = fmul (precedence_by_presence (nonzero (details_field d_underlyingApy m))
               (nonzero (underlyingApy m)) None) 100"
proof (intro conjI)
  show "resolve_impliedApy m
     = precedence_by_presence (nonzero (details_field d_impliedApy m)) (nonzero (impliedApy m)) None"
    by (simp only: resolve_impliedApy_def or_0_or_num)
  show "resolve_underlyingApy m
     = precedence_by_presence (nonzero (details_field d_underlyingApy m))
         (nonzero (underlyingApy m)) (nonzero (details_field d_aggregatedApy m))"
    by (simp only: resolve_underlyingApy_def or_0_or_num3)
  show "impliedApy_pct m
     = fmul (precedence_by_presence (nonzero (details_field d_impliedApy m))
               (nonzero (impliedApy m)) None) 100"
    by (simp only: impliedApy_pct_def or_0_or_num)
  show "underlyingApy_pct m
     = fmul (precedence_by_presence (nonzero (details_field d_underlyingApy m))
               (nonzero (underlyingApy m)) None) 100"
    by (simp only: underlyingApy_pct_def or_0_or_num)
qed

text \<open>
  C10: precedence between the nested, top-level and alias sources is decided by the
  truthiness of the value, not by the presence of the field. A nested value that is
  not 0 is the result whatever the other sources hold. A nested value that is absent or
  0 is passed over: with the nested implied yield present and 0, the top-level implied
  yield is the result; a top-level value that is not 0 is then the result; and when the
  top-level value is absent or 0 as well, the dashboard's underlying yield is the
  aggregated yield (0 if that is absent), and every other field is 0.
\<close>

theorem zero_counts_as_absent:
  "(details_field d_impliedApy m = Some 0 \<and> impliedApy m = Some v \<longrightarrow>
      resolve_impliedApy m = v \<and> impliedApy_pct m = fmul v 100)
   \<and> (details_field d_underlyingApy m = Some 0 \<and> underlyingApy m = Some 0
        \<and> details_field d_aggregatedApy m = Some a \<longrightarrow> resolve_underlyingApy m = a)
   \<and> (details_field d_underlyingApy mu = Some 0 \<and> underlyingApy mu = Some u \<longrightarrow>
        underlyingApy_pct mu = fmul u 100)
   \<and> (details_field d_impliedApy mn = Some w \<and> w \<noteq> 0 \<longrightarrow>
        resolve_impliedApy mn = w \<and> impliedApy_pct mn = fmul w 100)
   \<and> (details_field d_underlyingApy mn = Some w' \<and> w' \<noteq> 0 \<longrightarrow>
        resolve_underlyingApy mn = w' \<and> underlyingApy_pct mn = fmul w' 100)
   \<and> ((details_field d_impliedApy mt = None \<or> details_field d_impliedApy mt = Some 0)
        \<and> impliedApy mt = Some t \<and> t \<noteq> 0 \<longrightarrow>
        resolve_impliedApy mt = t \<and> impliedApy_pct mt = fmul t 100)
   \<and> ((details_field d_underlyingApy mt = None \<or> details_field d_underlyingApy mt = Some 0)
        \<and> underlyingApy mt = Some t' \<and> t' \<noteq> 0 \<longrightarrow>
        resolve_underlyingApy mt = t' \<and> underlyingApy_pct mt = fmul t' 100)
   \<and> ((details_field d_underlyingApy mf = None \<or> details_field d_underlyingApy mf = Some 0)
        \<and> (underlyingApy mf = None \<or> underlyingApy mf = Some 0) \<longrightarrow>
        resolve_underlyingApy mf = or_0 (details_field d_aggregatedApy mf)
        \<and> underlyingApy_pct mf = 0)
   \<and> ((details_field d_impliedApy mf = None \<or> details_field d_impliedApy mf = Some 0)
        \<and> (impliedApy mf = None \<or> impliedApy mf = Some 0) \<longrightarrow>
        resolve_impliedApy mf = 0 \<and> impliedApy_pct mf = 0)"
  by (auto simp add: resolve_impliedApy_def resolve_underlyingApy_def impliedApy_pct_def
      underlyingApy_pct_def or_0_def or_num_def truthy_num_def fmul_0 split: option.splits)

theorem zero_counts_as_absent_witness:
  "details_field d_impliedApy market_zero_nested = Some 0
   \<and> impliedApy market_zero_nested = Some (double_of (5 / 100))
   \<and> resolve_impliedApy market_zero_nested = double_of (5 / 100)
   \<and> impliedApy_pct market_zero_nested = fmul (double_of (5 / 100)) 100
   \<and> details_field d_underlyingApy market_zero_nested = Some 0
   \<and> underlyingApy market_zero_nested = Some 0
   \<and> details_field d_aggregatedApy market_zero_nested = Some (double_of (3 / 100))
   \<and> resolve_underlyingApy market_zero_nested = double_of (3 / 100)
   \<and> details_field d_underlyingApy market_nested_zero = Some 0
   \<and> underlyingApy market_nested_zero = Some (double_of (2 / 100))
   \<and> underlyingApy_pct market_nested_zero = fmul (double_of (2 / 100)) 100
   \<and> details_field d_impliedApy market_nested_wins = Some (double_of (6 / 100))
   \<and> details_field d_underlyingApy market_nested_wins = Some (double_of (7 / 100))
   \<and> resolve_impliedApy market_nested_wins = double_of (6 / 100)
   \<and> resolve_underlyingApy market_nested_wins = double_of (7 / 100)
   \<and> underlyingApy_pct market_nested_wins = fmul (double_of (7 / 100)) 100
   \<and> details_field d_impliedApy market_top_only = None
   \<and> details_field d_underlyingApy market_top_only = None
   \<and> resolve_impliedApy market_top_only = double_of (5 / 100)
   \<and> resolve_underlyingApy market_top_only = double_of (2 / 100)
   \<and> details_field d_impliedApy market_alias_only = Some 0
   \<and> impliedApy market_alias_only = None
   \<and> underlyingApy market_alias_only = Some 0
   \<and> resolve_underlyingApy market_alias_only = or_0 (details_field d_aggregatedApy market_alias_only)
   \<and> underlyingApy_pct market_alias_only = 0
   \<and> resolve_impliedApy market_alias_only = 0"
proof -
  have nz: "double_of (6 / 100) \<noteq> 0" "double_of (7 / 100) \<noteq> 0"
    "double_of (5 / 100) \<noteq> 0" "double_of (2 / 100) \<noteq> 0"
    by code_simp+
  have a: "details_field d_impliedApy market_zero_nested = Some 0"
    "impliedApy market_zero_nested = Some (double_of (5 / 100))"
    "details_field d_underlyingApy market_zero_nested = Some 0"
    "underlyingApy market_zero_nested = Some 0"
    "details_field d_aggregatedApy market_zero_nested = Some (double_of (3 / 100))"
    by (simp_all add: market_zero_nested_def details_field_def)
  have b: "details_field d_underlyingApy market_nested_zero = Some 0"
    "underlyingApy market_nested_zero = Some (double_of (2 / 100))"
    by (simp_all add: market_nested_zero_def market_zero_nested_def details_field_def)
  have c: "details_field d_impliedApy market_nested_wins = Some (double_of (6 / 100))"
    "details_field d_underlyingApy market_nested_wins = Some (double_of (7 / 100))"
    by (simp_all add: market_nested_wins_def market_zero_nested_def details_field_def)
  have d: "details_field d_impliedApy market_top_only = None"
    "details_field d_underlyingApy market_top_only = None"
    "impliedApy market_top_only = Some (double_of (5 / 100))"
    "underlyingApy market_top_only = Some (double_of (2 / 100))"
    by (simp_all add: market_top_only_def market_zero_nested_def details_field_def)
  have e: "details_field d_impliedApy market_alias_only = Some 0"
    "details_field d_underlyingApy market_alias_only = Some 0"
    "impliedApy market_alias_only = None"
    "underlyingApy market_alias_only = Some 0"
    by (simp_all add: market_alias_only_def market_zero_nested_def details_field_def)
  note t = zero_counts_as_absent [of market_zero_nested "double_of (5 / 100)"
      "double_of (3 / 100)" market_nested_zero "double_of (2 / 100)" market_nested_wins
      "double_of (6 / 100)" "double_of (7 / 100)" market_top_only "double_of (5 / 100)"
      "double_of (2 / 100)" market_alias_only]
  from t a have r1: "resolve_impliedApy market_zero_nested = double_of (5 / 100)"
    "impliedApy_pct market_zero_nested = fmul (double_of (5 / 100)) 100"
    "resolve_underlyingApy market_zero_nested = double_of (3 / 100)"
    by blast+
  from t b have r2: "underlyingApy_pct market_nested_zero = fmul (double_of (2 / 100)) 100"
    by blast
  from t c nz have r3: "resolve_impliedApy market_nested_wins = double_of (6 / 100)"
    "resolve_underlyingApy market_nested_wins = double_of (7 / 100)"
    "underlyingApy_pct market_nested_wins = fmul (double_of (7 / 100)) 100"
    by blast+
  from t d nz have r4: "resolve_impliedApy market_top_only = double_of (5 / 100)"
    "resolve_underlyingApy market_top_only = double_of (2 / 100)"
    by blast+
  from t e have r5:
    "resolve_underlyingApy market_alias_only = or_0 (details_field d_aggregatedApy market_alias_only)"
    "underlyingApy_pct market_alias_only = 0"
    "resolve_impliedApy market_alias_only = 0"
    by blast+
  from a b c d e r1 r2 r3 r4 r5 show ?thesis by blast
qed


section \<open>Properties of the snapshot job and the dashboard\<close>

lemma set_sorted_markets:
  "set (sorted_markets env ms)
   = {m \<in> set ms. has_expiry m \<and> days_positive (days_to_expiry env m)}"
  by (auto simp add: sorted_markets_def set_sort_by_expiry)

lemma length_sorted_markets: "length (sorted_markets env ms) \<le> length ms"
proof -
  have "length (sorted_markets env ms) \<le> length (sort_by_expiry env ms)"
    by (simp add: sorted_markets_def)
  also have "\<dots> = length (filter has_expiry ms)"
    unfolding sort_by_expiry_def by (rule mset_eq_length) (rule mset_array_sort)
  also have "\<dots> \<le> length ms"
    by simp
  finally show ?thesis .
qed

lemma sorted_extremes:
  assumes "sorted (map f xs)" and "x \<in> set xs"
  shows "f (xs ! 0) \<le> f x \<and> f x \<le> f (xs ! (length xs - 1))"
proof -
  from assms(2) obtain i where i: "i < length xs" and x: "xs ! i = x"
    by (auto simp add: in_set_conv_nth)
  have "map f xs ! 0 \<le> map f xs ! i"
    using assms(1) i by (intro sorted_nth_mono) simp_all
  moreover have "map f xs ! i \<le> map f xs ! (length xs - 1)"
    using assms(1) i by (intro sorted_nth_mono) simp_all
  moreover have "0 < length xs" using i by (cases xs) simp_all
  ultimately show ?thesis using i x by (simp add: nth_map)
qed

lemma front_back_members:
  "2 \<le> length xs \<Longrightarrow> frontMonth xs \<in> set xs \<and> backMonth xs \<in> set xs"
proof -
  assume "2 \<le> length xs"
  then have "0 < length xs" and "length xs - 1 < length xs" by (cases xs; simp)+
  then show ?thesis
    unfolding frontMonth_def backMonth_def by (intro conjI nth_mem)
qed

lemma days_positive_iff:
  "expiry_time env m = Some t \<Longrightarrow> days_positive (days_to_expiry env m) \<longleftrightarrow> now env < t"
proof -
  assume "expiry_time env m = Some t"
  then have "days_positive (days_to_expiry env m) \<longleftrightarrow> (now env - t) div 86400000 < 0"
    by (simp add: days_positive_def days_to_expiry_def)
  also have "\<dots> \<longleftrightarrow> now env - t < 0"
    by (simp add: pos_imp_zdiv_neg_iff)
  finally show ?thesis by simp
qed

lemma handler_few:
  assumes "length (sorted_markets env (susdeMarkets (allMarkets (responses net)))) < 2"
  shows "handler env net post st =
     (if length (susdeMarkets (allMarkets (responses net))) < 2
      then Not_enough ''Not enough sUSDe markets to calculate spread''
             (length (susdeMarkets (allMarkets (responses net))))
      else Not_enough ''Not enough valid sUSDe markets''
             (length (sorted_markets env (susdeMarkets (allMarkets (responses net))))), st)"
  using assms by (simp add: handler_def Let_def)

lemma handler_saved:
  assumes "2 \<le> length (sorted_markets env (susdeMarkets (allMarkets (responses net))))"
  shows "handler env net upsert_ok tbl =
     (Snapshot_saved (today env)
        (term_spread (snapshot_record env (sorted_markets env (susdeMarkets (allMarkets (responses net))))))
        (front_month_apy (snapshot_record env (sorted_markets env (susdeMarkets (allMarkets (responses net))))))
        (back_month_apy (snapshot_record env (sorted_markets env (susdeMarkets (allMarkets (responses net))))))
        (length (sorted_markets env (susdeMarkets (allMarkets (responses net))))),
      store_put (snapshot_record env (sorted_markets env (susdeMarkets (allMarkets (responses net))))) tbl)"
proof -
  let ?c = "susdeMarkets (allMarkets (responses net))"
  have "length (sorted_markets env ?c) \<le> length ?c"
    by (rule length_sorted_markets)
  with assms have "\<not> length ?c < 2" by simp
  moreover from assms have "\<not> length (sorted_markets env ?c) < 2" by simp
  moreover have "date (snapshot_record env (sorted_markets env ?c)) = today env"
    by (simp add: snapshot_record_def)
  ultimately show ?thesis
    by (simp add: handler_def Let_def upsert_ok_def)
qed

lemma fetch_chain_failed_as_empty:
  "r_markets (fetch_chain (failed_as_empty net) c) = r_markets (fetch_chain net c)
   \<and> r_chain (fetch_chain (failed_as_empty net) c) = r_chain (fetch_chain net c)
   \<and> r_chainId (fetch_chain (failed_as_empty net) c) = r_chainId (fetch_chain net c)"
  by (simp add: fetch_chain_def failed_as_empty_def split: fetch_outcome.splits)

lemma allMarkets_failed_as_empty:
  "allMarkets (responses (failed_as_empty net)) = allMarkets (responses net)"
proof -
  have "map (\<lambda>r. map (tag_market r) (r_markets r)) (map (fetch_chain (failed_as_empty net)) cs)
        = map (\<lambda>r. map (tag_market r) (r_markets r)) (map (fetch_chain net) cs)" for cs
    by (simp add: tag_market_def fetch_chain_failed_as_empty)
  then show ?thesis by (simp only: allMarkets_def responses_def)
qed

lemma allMarkets_successful:
  assumes "\<forall>r \<in> set rs. r_error r \<noteq> None \<longrightarrow> r_markets r = []"
  shows "allMarkets rs = allMarkets (filter (\<lambda>r. r_error r = None) rs)"
  using assms by (induction rs) (auto simp add: allMarkets_def)

lemma fetch_chain_error: "r_error (fetch_chain net c) \<noteq> None \<Longrightarrow> r_markets (fetch_chain net c) = []"
  by (simp add: fetch_chain_def split: fetch_outcome.splits)

lemma handler_failed_as_empty:
  "handler env (failed_as_empty net) post st = handler env net post st"
  by (simp only: handler_def allMarkets_failed_as_empty)


text \<open>
  C9: a branch of the fan-out that fails contributes no markets and records its error;
  the markets of the pass are those of the branches without an error; the job answers
  exactly as if each failed branch had returned an empty list. With the first chain
  failing and the second returning three valid markets, the job computes and stores a
  snapshot.
\<close>

theorem failed_branch_contributes_nothing:
  "(net c = Fetch_failed e \<longrightarrow>
      r_markets (fetch_chain net (c, nm)) = [] \<and> r_error (fetch_chain net (c, nm)) = Some e)
   \<and> allMarkets (responses net) = allMarkets (filter (\<lambda>r. r_error r = None) (responses net))
   \<and> handler env net post st = handler env (failed_as_empty net) post st
   \<and> handler example_env failing_net upsert_ok []
       = (Snapshot_saved ''2026-01-01'' (- 3) 4 1 3,
          [\<lparr>date = ''2026-01-01'', term_spread = - 3, front_month_apy = 4,
            back_month_apy = 1, front_expiry = ''2026-01-11'', back_expiry = ''2026-06-30'',
            underlying_apy = 0, markets_count = 3\<rparr>])"
proof (intro conjI impI)
  assume "net c = Fetch_failed e"
  then show "r_markets (fetch_chain net (c, nm)) = []"
    and "r_error (fetch_chain net (c, nm)) = Some e"
    by (simp_all add: fetch_chain_def)
next
  have "\<forall>r \<in> set (responses net). r_error r \<noteq> None \<longrightarrow> r_markets r = []"
    using fetch_chain_error by (auto simp add: responses_def)
  then show "allMarkets (responses net)
             = allMarkets (filter (\<lambda>r. r_error r = None) (responses net))"
    by (rule allMarkets_successful)
next
  show "handler env net post st = handler env (failed_as_empty net) post st"
    by (simp only: handler_failed_as_empty)
next
  show "handler example_env failing_net upsert_ok []
       = (Snapshot_saved ''2026-01-01'' (- 3) 4 1 3,
          [\<lparr>date = ''2026-01-01'', term_spread = - 3, front_month_apy = 4,
            back_month_apy = 1, front_expiry = ''2026-01-11'', back_expiry = ''2026-06-30'',
            underlying_apy = 0, markets_count = 3\<rparr>])"
    by code_simp
qed

theorem failed_branch_contributes_nothing_witness:
  "failing_net 1 = Fetch_failed ''network error''
   \<and> r_markets (fetch_chain failing_net (1, ''Ethereum'')) = []
   \<and> r_error (fetch_chain failing_net (1, ''Ethereum'')) = Some ''network error''
   \<and> length (allMarkets (responses failing_net)) = 3"
proof -
  have f: "failing_net 1 = Fetch_failed ''network error''"
    by (simp add: failing_net_def)
  have n: "length (allMarkets (responses failing_net)) = 3"
    by code_simp
  from failed_branch_contributes_nothing [of failing_net 1 "''network error''" "''Ethereum''"
      example_env upsert_ok "[]"] f
  have "r_markets (fetch_chain failing_net (1, ''Ethereum'')) = []
        \<and> r_error (fetch_chain failing_net (1, ''Ethereum'')) = Some ''network error''"
    by blast
  with f n show ?thesis by blast
qed

text \<open>
  C5: every market left for the selection of front and back has a strictly positive
  number of days to expiry, which is to say an expiry later than the clock reading; a
  candidate without that is not among them, so neither the front nor the back market is
  expired; and when two or more candidates are cut to fewer than two, the job answers
  with the not-enough message and writes nothing.
\<close>

theorem expired_never_selected:
  "(\<forall>m \<in> set (sorted_markets env ms). \<exists>d. days_to_expiry env m = Some d \<and> 0 < d)
   \<and> (m \<in> set ms \<and> \<not> days_positive (days_to_expiry env m) \<longrightarrow>
        m \<notin> set (sorted_markets env ms))
   \<and> (expiry_time env m = Some t \<longrightarrow>
        (days_positive (days_to_expiry env m) \<longleftrightarrow> now env < t))
   \<and> (2 \<le> length (sorted_markets env ms) \<longrightarrow>
        days_positive (days_to_expiry env (frontMonth (sorted_markets env ms)))
        \<and> days_positive (days_to_expiry env (backMonth (sorted_markets env ms))))
   \<and> (2 \<le> length (susdeMarkets (allMarkets (responses net)))
        \<and> length (sorted_markets env (susdeMarkets (allMarkets (responses net)))) < 2 \<longrightarrow>
        handler env net post st
        = (Not_enough ''Not enough valid sUSDe markets''
             (length (sorted_markets env (susdeMarkets (allMarkets (responses net))))), st))"
proof (intro conjI impI ballI)
  fix x assume "x \<in> set (sorted_markets env ms)"
  then have "days_positive (days_to_expiry env x)"
    by (simp add: set_sorted_markets)
  then show "\<exists>d. days_to_expiry env x = Some d \<and> 0 < d"
    by (simp add: days_positive_def split: option.splits)
next
  assume "m \<in> set ms \<and> \<not> days_positive (days_to_expiry env m)"
  then show "m \<notin> set (sorted_markets env ms)"
    by (simp add: set_sorted_markets)
next
  assume "expiry_time env m = Some t"
  then show "days_positive (days_to_expiry env m) \<longleftrightarrow> now env < t"
    by (rule days_positive_iff)
next
  assume "2 \<le> length (sorted_markets env ms)"
  then have "frontMonth (sorted_markets env ms) \<in> set (sorted_markets env ms)"
    and "backMonth (sorted_markets env ms) \<in> set (sorted_markets env ms)"
    using front_back_members by blast+
  then show "days_positive (days_to_expiry env (frontMonth (sorted_markets env ms)))"
    and "days_positive (days_to_expiry env (backMonth (sorted_markets env ms)))"
    by (simp_all add: set_sorted_markets)
next
  assume a: "2 \<le> length (susdeMarkets (allMarkets (responses net)))
        \<and> length (sorted_markets env (susdeMarkets (allMarkets (responses net)))) < 2"
  then have "length (sorted_markets env (susdeMarkets (allMarkets (responses net)))) < 2"
    by simp
  then have "handler env net post st =
     (if length (susdeMarkets (allMarkets (responses net))) < 2
      then Not_enough ''Not enough sUSDe markets to calculate spread''
             (length (susdeMarkets (allMarkets (responses net))))
      else Not_enough ''Not enough valid sUSDe markets''
             (length (sorted_markets env (susdeMarkets (allMarkets (responses net))))), st)"
    by (rule handler_few)
  with a show "handler env net post st
        = (Not_enough ''Not enough valid sUSDe markets''
             (length (sorted_markets env (susdeMarkets (allMarkets (responses net))))), st)"
    by simp
qed


theorem expired_never_selected_witness:
  "expired_candidates ! 1 \<in> set expired_candidates
   \<and> \<not> days_positive (days_to_expiry example_env (expired_candidates ! 1))
   \<and> expired_candidates ! 1 \<notin> set (sorted_markets example_env expired_candidates)
   \<and> expiry_time example_env (expired_candidates ! 1) = Some 1766836800000
   \<and> \<not> now example_env < 1766836800000
   \<and> 2 \<le> length (sorted_markets example_env expired_candidates)
   \<and> days_positive (days_to_expiry example_env (frontMonth (sorted_markets example_env expired_candidates)))
   \<and> 2 \<le> length (susdeMarkets (allMarkets (responses mostly_expired_net)))
   \<and> length (sorted_markets example_env (susdeMarkets (allMarkets (responses mostly_expired_net)))) < 2
   \<and> handler example_env mostly_expired_net upsert_ok []
       = (Not_enough ''Not enough valid sUSDe markets''
            (length (sorted_markets example_env (susdeMarkets (allMarkets (responses mostly_expired_net))))), [])"
proof -
  have a: "expired_candidates ! 1 \<in> set expired_candidates
           \<and> \<not> days_positive (days_to_expiry example_env (expired_candidates ! 1))"
    by code_simp
  have b: "expiry_time example_env (expired_candidates ! 1) = Some 1766836800000"
    by code_simp
  have c: "2 \<le> length (sorted_markets example_env expired_candidates)"
    by code_simp
  have d: "2 \<le> length (susdeMarkets (allMarkets (responses mostly_expired_net)))
        \<and> length (sorted_markets example_env (susdeMarkets (allMarkets (responses mostly_expired_net)))) < 2"
    by code_simp
  note t = expired_never_selected [of example_env expired_candidates "expired_candidates ! 1"
      1766836800000 mostly_expired_net upsert_ok "[]"]
  from t a have e: "expired_candidates ! 1 \<notin> set (sorted_markets example_env expired_candidates)"
    by blast
  from t a b have f: "\<not> now example_env < 1766836800000"
    by blast
  from t c have g: "days_positive (days_to_expiry example_env
                      (frontMonth (sorted_markets example_env expired_candidates)))"
    by blast
  from t d have h: "handler example_env mostly_expired_net upsert_ok []
       = (Not_enough ''Not enough valid sUSDe markets''
            (length (sorted_markets example_env (susdeMarkets (allMarkets (responses mostly_expired_net))))), [])"
    by blast
  from a b c d e f g h show ?thesis by blast
qed

text \<open>
  C4, as stated, fails: on the dashboard a pass with no valid candidate leaves the
  structure of the pass before it, which need not be empty.
\<close>

theorem stale_structure_counterexample:
  "length (validStructure example_env [market_expired]) = 0
   \<and> st_termStructure
        (processMarkets example_env [market_expired]
           (processMarkets example_env [market_10d] initial_state))
      = [structure_point example_env market_10d]
   \<and> st_termStructure
        (processMarkets example_env [market_expired]
           (processMarkets example_env [market_10d] initial_state)) \<noteq> []"
  by code_simp

lemma valid_nonempty_sorted:
  "validStructure env ms \<noteq> [] \<Longrightarrow> length (sort_by_expiry env ms) \<noteq> 0"
proof -
  assume "validStructure env ms \<noteq> []"
  then have "sort_by_expiry env ms \<noteq> []"
    by (auto simp add: validStructure_def)
  then show ?thesis by simp
qed

lemma processMarkets_one:
  assumes "length (validStructure env ms) = 1"
  shows "st_termStructure (processMarkets env ms s) = validStructure env ms"
    and "st_termSpread (processMarkets env ms s) = 0"
proof -
  from assms have ne: "validStructure env ms \<noteq> []" by auto
  then have "length (sort_by_expiry env ms) \<noteq> 0" by (rule valid_nonempty_sorted)
  with assms ne show "st_termStructure (processMarkets env ms s) = validStructure env ms"
    and "st_termSpread (processMarkets env ms s) = 0"
    by (simp_all add: processMarkets_def Let_def)
qed

lemma processMarkets_none:
  assumes "length (validStructure env ms) = 0"
  shows "st_termStructure (processMarkets env ms s) = st_termStructure s"
    and "st_termSpread (processMarkets env ms s) = st_termSpread s"
  using assms by (simp_all add: processMarkets_def Let_def)

text \<open>
  C4 (amended): with fewer than two candidates neither path fails. The snapshot job
  answers with status 200, a message and the count, and leaves the store as it was, for
  no candidate and for one alike. On the dashboard exactly one valid candidate gives a
  one-point structure and a term spread of 0; no valid candidate leaves structure and
  term spread as they were, which on a fresh page is the empty structure and 0.
\<close>

theorem degenerate_results:
  "(length (sorted_markets env (susdeMarkets (allMarkets (responses net)))) < 2 \<longrightarrow>
      handler env net post st =
        (if length (susdeMarkets (allMarkets (responses net))) < 2
         then Not_enough ''Not enough sUSDe markets to calculate spread''
                (length (susdeMarkets (allMarkets (responses net))))
         else Not_enough ''Not enough valid sUSDe markets''
                (length (sorted_markets env (susdeMarkets (allMarkets (responses net))))), st))
   \<and> (length (validStructure env ms1) = 1 \<longrightarrow>
        st_termStructure (processMarkets env ms1 s) = validStructure env ms1
        \<and> st_termSpread (processMarkets env ms1 s) = 0)
   \<and> (length (validStructure env ms0) = 0 \<longrightarrow>
        st_termStructure (processMarkets env ms0 s) = st_termStructure s
        \<and> st_termSpread (processMarkets env ms0 s) = st_termSpread s
        \<and> st_termStructure (processMarkets env ms0 initial_state) = []
        \<and> st_termSpread (processMarkets env ms0 initial_state) = 0)"
proof (intro conjI impI)
  assume "length (sorted_markets env (susdeMarkets (allMarkets (responses net)))) < 2"
  then show "handler env net post st =
        (if length (susdeMarkets (allMarkets (responses net))) < 2
         then Not_enough ''Not enough sUSDe markets to calculate spread''
                (length (susdeMarkets (allMarkets (responses net))))
         else Not_enough ''Not enough valid sUSDe markets''
                (length (sorted_markets env (susdeMarkets (allMarkets (responses net))))), st)"
    by (rule handler_few)
next
  assume one: "length (validStructure env ms1) = 1"
  then show "st_termStructure (processMarkets env ms1 s) = validStructure env ms1"
    by (rule processMarkets_one)
  from one show "st_termSpread (processMarkets env ms1 s) = 0"
    by (rule processMarkets_one)
next
  assume none: "length (validStructure env ms0) = 0"
  then show "st_termStructure (processMarkets env ms0 s) = st_termStructure s"
    by (rule processMarkets_none)
  from none show "st_termSpread (processMarkets env ms0 s) = st_termSpread s"
    by (rule processMarkets_none)
  from none have "st_termStructure (processMarkets env ms0 initial_state)
                  = st_termStructure initial_state"
    by (rule processMarkets_none)
  then show "st_termStructure (processMarkets env ms0 initial_state) = []"
    by (simp add: initial_state_def)
  from none have "st_termSpread (processMarkets env ms0 initial_state)
                  = st_termSpread initial_state"
    by (rule processMarkets_none)
  then show "st_termSpread (processMarkets env ms0 initial_state) = 0"
    by (simp add: initial_state_def)
qed

theorem degenerate_results_witness:
  "length (sorted_markets example_env (susdeMarkets (allMarkets (responses mostly_expired_net)))) < 2
   \<and> handler example_env mostly_expired_net upsert_ok [example_row]
       = (Not_enough ''Not enough valid sUSDe markets'' 1, [example_row])
   \<and> length (validStructure example_env [market_10d]) = 1
   \<and> st_termStructure (processMarkets example_env [market_10d] initial_state)
       = validStructure example_env [market_10d]
   \<and> st_termSpread (processMarkets example_env [market_10d] initial_state) = 0
   \<and> length (validStructure example_env [market_expired]) = 0
   \<and> st_termStructure (processMarkets example_env [market_expired] initial_state) = []"
proof -
  have a: "length (sorted_markets example_env (susdeMarkets (allMarkets (responses mostly_expired_net)))) < 2"
    by code_simp
  have a': "(if length (susdeMarkets (allMarkets (responses mostly_expired_net))) < 2
         then Not_enough ''Not enough sUSDe markets to calculate spread''
                (length (susdeMarkets (allMarkets (responses mostly_expired_net))))
         else Not_enough ''Not enough valid sUSDe markets''
                (length (sorted_markets example_env (susdeMarkets (allMarkets (responses mostly_expired_net))))))
        = Not_enough ''Not enough valid sUSDe markets'' 1"
    by code_simp
  have b: "length (validStructure example_env [market_10d]) = 1"
    by code_simp
  have c: "length (validStructure example_env [market_expired]) = 0"
    by code_simp
  note t = degenerate_results [of example_env mostly_expired_net upsert_ok "[example_row]"
      "[market_10d]" initial_state "[market_expired]"]
  from t a a' have d: "handler example_env mostly_expired_net upsert_ok [example_row]
       = (Not_enough ''Not enough valid sUSDe markets'' 1, [example_row])"
    by simp
  from t b have e: "st_termStructure (processMarkets example_env [market_10d] initial_state)
       = validStructure example_env [market_10d]
     \<and> st_termSpread (processMarkets example_env [market_10d] initial_state) = 0"
    by blast
  from t c have f: "st_termStructure (processMarkets example_env [market_expired] initial_state) = []"
    by blast
  from a b c d e f show ?thesis by blast
qed




section \<open>Properties of the term spread\<close>

lemma sorted_sorted_markets:
  assumes "\<forall>m \<in> set ms. has_expiry m \<longrightarrow> expiry_time env m \<noteq> None"
  shows "sorted (map (expiry_time env) (sorted_markets env ms))"
proof -
  from assms have "sort_by_expiry env ms = sort_key (expiry_time env) (filter has_expiry ms)"
    by (rule sort_by_expiry_stable)
  then have "sorted (map (expiry_time env) (sort_by_expiry env ms))"
    by simp
  then show ?thesis
    unfolding sorted_markets_def by (rule sorted_filter)
qed

text \<open>
  When every expiry of the candidates parses, two or more candidates left after the
  expiry filter give a row whose term spread is the back yield minus the front yield,
  rounded to 4 decimals, front and back being candidates with the earliest and the
  latest expiry among those left, and the job stores that row.
\<close>

lemma term_spread_when_expiries_parse:
  assumes parse: "\<forall>m \<in> set cands. has_expiry m \<longrightarrow> expiry_time env m \<noteq> None"
    and sm: "sm = sorted_markets env cands" and len: "2 \<le> length sm"
  shows "term_spread (snapshot_record env sm)
           = toFixed 4 (fsub (impliedApy_pct (backMonth sm)) (impliedApy_pct (frontMonth sm)))"
    and "frontMonth sm \<in> set cands" and "backMonth sm \<in> set cands"
    and "\<forall>m \<in> set cands. has_expiry m \<and> days_positive (days_to_expiry env m) \<longrightarrow>
           expiry_time env (frontMonth sm) \<le> expiry_time env m
           \<and> expiry_time env m \<le> expiry_time env (backMonth sm)"
    and "front_expiry (snapshot_record env sm) = split_T_0 (or_empty (expiry (frontMonth sm)))"
    and "back_expiry (snapshot_record env sm) = split_T_0 (or_empty (expiry (backMonth sm)))"
    and "cands = susdeMarkets (allMarkets (responses net)) \<longrightarrow>
           handler env net upsert_ok tbl
           = (Snapshot_saved (today env) (term_spread (snapshot_record env sm))
                (front_month_apy (snapshot_record env sm))
                (back_month_apy (snapshot_record env sm)) (length sm),
              store_put (snapshot_record env sm) tbl)"
proof -
  show "term_spread (snapshot_record env sm)
        = toFixed 4 (fsub (impliedApy_pct (backMonth sm)) (impliedApy_pct (frontMonth sm)))"
    by (simp add: snapshot_record_def termSpread_def backApy_def frontApy_def)
  show "front_expiry (snapshot_record env sm) = split_T_0 (or_empty (expiry (frontMonth sm)))"
    by (simp add: snapshot_record_def)
  show "back_expiry (snapshot_record env sm) = split_T_0 (or_empty (expiry (backMonth sm)))"
    by (simp add: snapshot_record_def)
  from len have "frontMonth sm \<in> set sm \<and> backMonth sm \<in> set sm"
    by (rule front_back_members)
  with sm show "frontMonth sm \<in> set cands" and "backMonth sm \<in> set cands"
    by (simp_all add: set_sorted_markets)
  show "\<forall>m \<in> set cands. has_expiry m \<and> days_positive (days_to_expiry env m) \<longrightarrow>
           expiry_time env (frontMonth sm) \<le> expiry_time env m
           \<and> expiry_time env m \<le> expiry_time env (backMonth sm)"
  proof (intro ballI impI)
    fix m
    assume "m \<in> set cands" and "has_expiry m \<and> days_positive (days_to_expiry env m)"
    then have "m \<in> set (sorted_markets env cands)"
      by (simp add: set_sorted_markets)
    with sorted_sorted_markets [OF parse]
    show "expiry_time env (frontMonth sm) \<le> expiry_time env m
          \<and> expiry_time env m \<le> expiry_time env (backMonth sm)"
      unfolding sm frontMonth_def backMonth_def by (rule sorted_extremes)
  qed
  show "cands = susdeMarkets (allMarkets (responses net)) \<longrightarrow>
           handler env net upsert_ok tbl
           = (Snapshot_saved (today env) (term_spread (snapshot_record env sm))
                (front_month_apy (snapshot_record env sm))
                (back_month_apy (snapshot_record env sm)) (length sm),
              store_put (snapshot_record env sm) tbl)"
  proof
    assume c: "cands = susdeMarkets (allMarkets (responses net))"
    from len show "handler env net upsert_ok tbl
           = (Snapshot_saved (today env) (term_spread (snapshot_record env sm))
                (front_month_apy (snapshot_record env sm))
                (back_month_apy (snapshot_record env sm)) (length sm),
              store_put (snapshot_record env sm) tbl)"
      unfolding sm c by (rule handler_saved)
  qed
qed

text \<open>
  C1: the claim fails on a feed in which a candidate's expiry is not a date. The feed
  returns the market expiring 180 days ahead (implied rate 0.01), a record whose expiry
  does not parse, and the market expiring 10 days ahead (implied rate 0.04), in this
  order. The comparator yields \<open>NaN\<close> against the unparseable record, the sort leaves the
  feed order, and the expiry filter then drops that record: two candidates are left,
  the front market is the one 180 days ahead, and the job stores a term spread of +3
  with \<open>front_expiry\<close> 2026-06-30 and \<open>back_expiry\<close> 2026-01-11, where the claim gives -3
  with the two expiries the other way round. On the two candidates of the scenario alone
  the job stores -3 with \<open>front_expiry\<close> 2026-01-11 and \<open>back_expiry\<close> 2026-06-30; and with
  the far rate 0.0100015 it stores the double nearest to -2.9998, the 4-decimal rounding
  of the double difference.
\<close>

theorem unparseable_expiry_misorders:
  "map expiry (sort_by_expiry example_env (susdeMarkets (allMarkets (responses bad_date_net))))
     = [Some ''2026-06-30T12:00:00.000Z'', Some ''not-a-date'', Some ''2026-01-11T12:00:00.000Z'']
   \<and> map expiry (sorted_markets example_env (susdeMarkets (allMarkets (responses bad_date_net))))
     = [Some ''2026-06-30T12:00:00.000Z'', Some ''2026-01-11T12:00:00.000Z'']
   \<and> handler example_env bad_date_net upsert_ok []
     = (Snapshot_saved ''2026-01-01'' 3 1 4 2,
        [\<lparr>date = ''2026-01-01'', term_spread = 3, front_month_apy = 1,
          back_month_apy = 4, front_expiry = ''2026-06-30'', back_expiry = ''2026-01-11'',
          underlying_apy = 0, markets_count = 2\<rparr>])
   \<and> handler example_env example_net upsert_ok []
     = (Snapshot_saved ''2026-01-01'' (- 3) 4 1 2,
        [\<lparr>date = ''2026-01-01'', term_spread = - 3, front_month_apy = 4,
          back_month_apy = 1, front_expiry = ''2026-01-11'', back_expiry = ''2026-06-30'',
          underlying_apy = 0, markets_count = 2\<rparr>])
   \<and> handler example_env rounding_net upsert_ok []
     = (Snapshot_saved ''2026-01-01'' (double_of (- 29998 / 10000)) 4
          (double_of (10002 / 10000)) 2,
        [\<lparr>date = ''2026-01-01'', term_spread = double_of (- 29998 / 10000),
          front_month_apy = 4, back_month_apy = double_of (10002 / 10000),
          front_expiry = ''2026-01-11'', back_expiry = ''2026-06-30'',
          underlying_apy = 0, markets_count = 2\<rparr>])"
  by code_simp


end
